theory Spec2Isabelle
  imports Complex_Main
begin

section \<open>JavaScript values\<close>

text \<open>
  A JavaScript number is a finite value, one of the two infinities, or NaN; the special
  values follow IEEE 754 as JavaScript exposes it, and negative zero is identified with
  zero. The range of doubles is modelled: a result whose magnitude reaches
  \<open>2^1024 - 2^970\<close> (half way between the largest double and \<open>2^1024\<close>) is an infinity,
  and one of at most \<open>2^-1075\<close> (half the smallest double) is 0. Inside that range the
  result of an operation is taken exact, without rounding; the rounding is modelled where
  a result hangs on it, in the correlation.
\<close>

datatype jsnum = Fin real | PInf | NInf | NaN

definition double_limit :: int where
  "double_limit = 2 ^ 1024 - 2 ^ 970"

definition double_tiny :: real where
  "double_tiny = 1 / 2 ^ 1075"

definition to_double :: "real \<Rightarrow> jsnum" where
  "to_double x =
     (if real_of_int double_limit \<le> x then PInf
      else if x \<le> - real_of_int double_limit then NInf
      else if \<bar>x\<bar> \<le> double_tiny then Fin 0
      else Fin x)"

definition isNaN :: "jsnum \<Rightarrow> bool" where
  "isNaN x = (x = NaN)"

fun js_neg :: "jsnum \<Rightarrow> jsnum" where
  "js_neg (Fin a) = Fin (- a)"
| "js_neg PInf = NInf"
| "js_neg NInf = PInf"
| "js_neg NaN = NaN"

fun js_add :: "jsnum \<Rightarrow> jsnum \<Rightarrow> jsnum" where
  "js_add (Fin a) (Fin b) = to_double (a + b)"
| "js_add NaN y = NaN"
| "js_add x NaN = NaN"
| "js_add PInf NInf = NaN"
| "js_add NInf PInf = NaN"
| "js_add PInf y = PInf"
| "js_add x PInf = PInf"
| "js_add NInf y = NInf"
| "js_add x NInf = NInf"

definition js_sub :: "jsnum \<Rightarrow> jsnum \<Rightarrow> jsnum" where
  "js_sub x y = js_add x (js_neg y)"

fun js_sgn :: "jsnum \<Rightarrow> int" where
  "js_sgn (Fin a) = (if a < 0 then - 1 else if a = 0 then 0 else 1)"
| "js_sgn PInf = 1"
| "js_sgn NInf = - 1"
| "js_sgn NaN = 0"

fun js_mul :: "jsnum \<Rightarrow> jsnum \<Rightarrow> jsnum" where
  "js_mul (Fin a) (Fin b) = to_double (a * b)"
| "js_mul NaN y = NaN"
| "js_mul x NaN = NaN"
| "js_mul x y =
     (if js_sgn x * js_sgn y = 0 then NaN
      else if 0 < js_sgn x * js_sgn y then PInf else NInf)"

fun js_div :: "jsnum \<Rightarrow> jsnum \<Rightarrow> jsnum" where
  "js_div (Fin a) (Fin b) =
     (if b \<noteq> 0 then to_double (a / b)
      else if a = 0 then NaN
      else if 0 < a then PInf else NInf)"
| "js_div NaN y = NaN"
| "js_div x NaN = NaN"
| "js_div (Fin a) y = Fin 0"
| "js_div x (Fin b) = (if (0 < js_sgn x) = (0 \<le> b) then PInf else NInf)"
| "js_div x y = NaN"

fun js_sqrt :: "jsnum \<Rightarrow> jsnum" where
  "js_sqrt (Fin a) = (if a < 0 then NaN else Fin (sqrt a))"
| "js_sqrt PInf = PInf"
| "js_sqrt NInf = NaN"
| "js_sqrt NaN = NaN"

fun js_less :: "jsnum \<Rightarrow> jsnum \<Rightarrow> bool" where
  "js_less (Fin a) (Fin b) = (a < b)"
| "js_less NaN y = False"
| "js_less x NaN = False"
| "js_less NInf y = (y \<noteq> NInf)"
| "js_less x PInf = (x \<noteq> PInf)"
| "js_less x y = False"

definition js_le :: "jsnum \<Rightarrow> jsnum \<Rightarrow> bool" where
  "js_le x y = (js_less x y \<or> (x = y \<and> x \<noteq> NaN))"

definition js_ge :: "jsnum \<Rightarrow> jsnum \<Rightarrow> bool" where
  "js_ge x y = js_le y x"

definition js_gt :: "jsnum \<Rightarrow> jsnum \<Rightarrow> bool" where
  "js_gt x y = js_less y x"

text \<open>Truthiness of a number: everything but 0 and NaN.\<close>

definition truthy_num :: "jsnum \<Rightarrow> bool" where
  "truthy_num x = (x \<noteq> NaN \<and> x \<noteq> Fin 0)"

text \<open>The expression \<open>x || 0\<close> on a number.\<close>

definition or_zero :: "jsnum \<Rightarrow> jsnum" where
  "or_zero x = (if truthy_num x then x else Fin 0)"

text \<open>
  Exceptions are values: the constructor, and the message where the program or a library
  sets it (the message of a TypeError is the engine's).
\<close>

datatype error = Error string | SyntaxError string | TypeError

definition bind_err :: "error + 'a \<Rightarrow> ('a \<Rightarrow> error + 'b) \<Rightarrow> error + 'b" where
  "bind_err m f = (case m of Inl e \<Rightarrow> Inl e | Inr v \<Rightarrow> f v)"

section \<open>Strings and the global parsers\<close>

text \<open>
  A string is a list of code units; the model has 8-bit units. \<open>String.prototype.trim\<close>,
  \<open>parseFloat\<close> and \<open>parseInt\<close> skip the white space and line terminator characters, of
  which these lie in that range.
\<close>

definition is_ws :: "char \<Rightarrow> bool" where
  "is_ws c = (c \<in> set [CHR 0x09, CHR 0x0A, CHR 0x0B, CHR 0x0C, CHR 0x0D, CHR 0x20, CHR 0xA0])"

definition trim :: "string \<Rightarrow> string" where
  "trim s = rev (dropWhile is_ws (rev (dropWhile is_ws s)))"

definition digit_of :: "char \<Rightarrow> nat option" where
  "digit_of c = map_of (zip ''0123456789'' [0, 1, 2, 3, 4, 5, 6, 7, 8, 9]) c"

definition is_digit :: "char \<Rightarrow> bool" where
  "is_digit c = (c \<in> set ''0123456789'')"

definition hex_of :: "char \<Rightarrow> nat option" where
  "hex_of c =
     map_of (zip ''0123456789abcdef'' [0, 1, 2, 3, 4, 5, 6, 7, 8, 9, 10, 11, 12, 13, 14, 15] @
             zip ''ABCDEF'' [10, 11, 12, 13, 14, 15]) c"

definition is_hex :: "char \<Rightarrow> bool" where
  "is_hex c = (c \<in> set ''0123456789abcdefABCDEF'')"

definition digits_val :: "string \<Rightarrow> nat" where
  "digits_val ds = foldl (\<lambda>acc c. 10 * acc + (case digit_of c of Some d \<Rightarrow> d | None \<Rightarrow> 0)) 0 ds"

definition hex_val :: "string \<Rightarrow> nat" where
  "hex_val ds = foldl (\<lambda>acc c. 16 * acc + (case hex_of c of Some d \<Rightarrow> d | None \<Rightarrow> 0)) 0 ds"

text \<open>
  \<open>toLowerCase\<close>: the ASCII capitals are mapped; the other letters of the 8-bit range map
  among themselves and to no character this program looks for.
\<close>

definition lower_char :: "char \<Rightarrow> char" where
  "lower_char c =
     (case map_of (zip ''ABCDEFGHIJKLMNOPQRSTUVWXYZ'' ''abcdefghijklmnopqrstuvwxyz'') c of
        Some l \<Rightarrow> l | None \<Rightarrow> c)"

definition toLowerCase :: "string \<Rightarrow> string" where
  "toLowerCase s = map lower_char s"

text \<open>An optional sign in front of a numeric literal: whether it is a minus, and the rest.\<close>

definition split_sign :: "string \<Rightarrow> bool \<times> string" where
  "split_sign s =
     (case s of
        [] \<Rightarrow> (False, [])
      | c # r \<Rightarrow> if c = CHR ''-'' then (True, r)
                else if c = CHR ''+'' then (False, r)
                else (False, s))"

text \<open>
  The exponent part of a decimal literal, \<open>e\<close> or \<open>E\<close>, an optional sign and digits: its
  value, and 0 when the text has no complete exponent part.
\<close>

definition exponent_part :: "string \<Rightarrow> int" where
  "exponent_part s =
     (case s of
        [] \<Rightarrow> 0
      | c # r \<Rightarrow>
          if c = CHR ''e'' \<or> c = CHR ''E''
          then (let (neg, ds) = split_sign r; v = int (digits_val (takeWhile is_digit ds))
                in if neg then - v else v)
          else 0)"

definition scale10 :: "real \<Rightarrow> int \<Rightarrow> real" where
  "scale10 m e = (if 0 \<le> e then m * 10 ^ nat e else m / 10 ^ nat (- e))"

text \<open>
  \<open>parseFloat\<close> on a string: leading white space is skipped, then the longest prefix that
  is a decimal literal (sign, \<open>Infinity\<close> or digits with an optional fraction and
  exponent) is read; NaN when there is none. The value read is a double: an infinity
  beyond the largest one, 0 below the smallest.
\<close>

definition parseFloat :: "string \<Rightarrow> jsnum" where
  "parseFloat inputString =
     (let (neg, u) = split_sign (dropWhile is_ws inputString) in
      if take 8 u = ''Infinity'' then (if neg then NInf else PInf)
      else
        let ip = takeWhile is_digit u;
            r1 = dropWhile is_digit u;
            (fp, r2) = (case r1 of
                          [] \<Rightarrow> ([], [])
                        | c # r \<Rightarrow> if c = CHR ''.''
                                  then (takeWhile is_digit r, dropWhile is_digit r)
                                  else ([], r1))
        in if ip = [] \<and> fp = [] then NaN
           else
             let m = real (digits_val (ip @ fp)) / 10 ^ length fp;
                 v = scale10 m (exponent_part r2)
             in to_double (if neg then - v else v))"

text \<open>
  \<open>parseInt\<close> on a string, no radix given: white space, a sign, then hexadecimal digits
  after \<open>0x\<close> or \<open>0X\<close> and decimal digits otherwise; NaN when no digit follows. The
  integer read is a double: beyond the largest one it is an infinity.
\<close>

definition to_double_range :: "int \<Rightarrow> jsnum" where
  "to_double_range v =
     (if double_limit \<le> v then PInf
      else if v \<le> - double_limit then NInf
      else Fin (real_of_int v))"

definition parseInt :: "string \<Rightarrow> jsnum" where
  "parseInt inputString =
     (let (neg, u) = split_sign (dropWhile is_ws inputString);
          z = (if take 2 u = ''0x'' \<or> take 2 u = ''0X''
               then map_option hex_val (let h = takeWhile is_hex (drop 2 u) in if h = [] then None else Some h)
               else map_option digits_val (let d = takeWhile is_digit u in if d = [] then None else Some d))
      in case z of
           None \<Rightarrow> NaN
         | Some v \<Rightarrow> to_double_range (if neg then - int v else int v))"

text \<open>
  A primitive value, as a cell of a parsed CSV row holds one (the parser is run with
  dynamic typing, so a cell may be a number, a boolean or \<open>null\<close>), \<open>undefined\<close> for a
  cell that is absent.
\<close>

datatype prim = PUndefined | PNull | PBool bool | PNum jsnum | PStr string

fun truthy :: "prim \<Rightarrow> bool" where
  "truthy PUndefined = False"
| "truthy PNull = False"
| "truthy (PBool b) = b"
| "truthy (PNum x) = truthy_num x"
| "truthy (PStr s) = (s \<noteq> [])"

text \<open>
  \<open>String(v)\<close>. The text of a number is the host's number-to-string conversion, a
  parameter \<open>ts\<close> of every function that may meet a number.
\<close>

fun to_string :: "(jsnum \<Rightarrow> string) \<Rightarrow> prim \<Rightarrow> string" where
  "to_string ts PUndefined = ''undefined''"
| "to_string ts PNull = ''null''"
| "to_string ts (PBool b) = (if b then ''true'' else ''false'')"
| "to_string ts (PNum x) = ts x"
| "to_string ts (PStr s) = s"

section \<open>Field normalizer (dataProcessor.js)\<close>

text \<open>convertSizeToBytes; the result \<open>None\<close> is \<open>null\<close>.\<close>

definition convertSizeToBytes :: "(jsnum \<Rightarrow> string) \<Rightarrow> prim \<Rightarrow> jsnum option" where
  "convertSizeToBytes ts sizeString =
     (if \<not> truthy sizeString \<or> sizeString = PStr ''Varies with device'' then None
      else
        let sizeStr = toLowerCase (to_string ts sizeString);
            numericValue = parseFloat sizeStr
        in if CHR ''k'' \<in> set sizeStr then Some (js_mul numericValue (Fin 1024))
           else if CHR ''m'' \<in> set sizeStr
             then Some (js_mul (js_mul numericValue (Fin 1024)) (Fin 1024))
           else if CHR ''g'' \<in> set sizeStr
             then Some (js_mul (js_mul (js_mul numericValue (Fin 1024)) (Fin 1024)) (Fin 1024))
           else Some numericValue)"

text \<open>convertInstallsToNumber: every comma and plus sign is removed, the rest trimmed.\<close>

definition convertInstallsToNumber :: "(jsnum \<Rightarrow> string) \<Rightarrow> prim \<Rightarrow> jsnum" where
  "convertInstallsToNumber ts installString =
     (if \<not> truthy installString then Fin 0
      else
        let installStr =
              trim (filter (\<lambda>c. c \<noteq> CHR '','' \<and> c \<noteq> CHR ''+'') (to_string ts installString))
        in or_zero (parseInt installStr))"

text \<open>
  convertPriceToNumber. \<open>replace\<close> is called with the one-character string \<open>$\<close> as its
  pattern and the empty string as replacement, which removes the first \<open>$\<close> of the text,
  wherever it stands.
\<close>

definition convertPriceToNumber :: "(jsnum \<Rightarrow> string) \<Rightarrow> prim \<Rightarrow> jsnum" where
  "convertPriceToNumber ts priceString =
     (if \<not> truthy priceString \<or> priceString = PStr ''Free'' \<or> priceString = PStr ''0''
      then Fin 0
      else
        let priceStr = remove1 (CHR ''$'') (to_string ts priceString)
        in or_zero (parseFloat priceStr))"

text \<open>
  The reading of the price conversion in the specification, to compare the code with:
  \<open>Free\<close>, \<open>0\<close> and the empty string give 0; otherwise a leading currency symbol is
  stripped and the remainder parsed as a float, 0 when that fails.
\<close>

definition strip_leading_currency :: "string \<Rightarrow> string" where
  "strip_leading_currency s =
     (case s of [] \<Rightarrow> [] | c # r \<Rightarrow> if c = CHR ''$'' then r else s)"

definition priceToNumber_spec :: "string \<Rightarrow> jsnum" where
  "priceToNumber_spec s =
     (if s = [] \<or> s = ''Free'' \<or> s = ''0'' then Fin 0
      else or_zero (parseFloat (strip_leading_currency s)))"

text \<open>
  A numeric string, as the size column writes one before its unit: an optional sign and
  decimal digits with an optional fraction (\<open>19\<close>, \<open>8.7\<close>, \<open>.5\<close>), at least one digit.
\<close>

definition numeric_string :: "string \<Rightarrow> bool" where
  "numeric_string v =
     (let (neg, u) = split_sign v;
          ip = takeWhile is_digit u;
          r1 = dropWhile is_digit u
      in case r1 of
           [] \<Rightarrow> ip \<noteq> []
         | c # fp \<Rightarrow> c = CHR ''.'' \<and> list_all is_digit fp \<and> (ip \<noteq> [] \<or> fp \<noteq> []))"

text \<open>INSTALL\_RANGES of constants.js; the upper bound of the last range is Infinity.\<close>

record install_range =
  label :: string
  range_min :: jsnum
  range_max :: jsnum

definition INSTALL_RANGES :: "install_range list" where
  "INSTALL_RANGES =
     [ \<lparr> label = ''0-1K'', range_min = Fin 0, range_max = Fin 1000 \<rparr>,
       \<lparr> label = ''1K-10K'', range_min = Fin 1000, range_max = Fin 10000 \<rparr>,
       \<lparr> label = ''10K-100K'', range_min = Fin 10000, range_max = Fin 100000 \<rparr>,
       \<lparr> label = ''100K-1M'', range_min = Fin 100000, range_max = Fin 1000000 \<rparr>,
       \<lparr> label = ''1M-10M'', range_min = Fin 1000000, range_max = Fin 10000000 \<rparr>,
       \<lparr> label = ''10M-100M'', range_min = Fin 10000000, range_max = Fin 100000000 \<rparr>,
       \<lparr> label = ''100M+'', range_min = Fin 100000000, range_max = PInf \<rparr> ]"

definition in_range :: "jsnum \<Rightarrow> install_range \<Rightarrow> bool" where
  "in_range installs r = (js_ge installs (range_min r) \<and> js_less installs (range_max r))"

definition categorizeInstalls :: "jsnum \<Rightarrow> string" where
  "categorizeInstalls installs =
     (case find (in_range installs) INSTALL_RANGES of
        Some r \<Rightarrow> label r
      | None \<Rightarrow> ''Unknown'')"

section \<open>Record cleaner (dataProcessor.js)\<close>

text \<open>
  A raw row is an object from column names to cells; an absent column reads \<open>undefined\<close>.
  The argument of the two cleaning functions is either an array of rows or some value
  that is not an array.
\<close>

type_synonym row = "(string \<times> prim) list"

datatype raw_input = NotArray | RowArray "row list"

definition cell :: "row \<Rightarrow> string \<Rightarrow> prim" where
  "cell r k = (case map_of r k of None \<Rightarrow> PUndefined | Some v \<Rightarrow> v)"

text \<open>
  \<open>x?.trim()\<close>: \<open>undefined\<close> (here \<open>None\<close>) when \<open>x\<close> is \<open>null\<close> or \<open>undefined\<close>; the trimmed
  text when \<open>x\<close> is a string; a number or a boolean has no method \<open>trim\<close>, and the call
  throws a TypeError.
\<close>

fun opt_trim :: "prim \<Rightarrow> error + string option" where
  "opt_trim PUndefined = Inr None"
| "opt_trim PNull = Inr None"
| "opt_trim (PStr s) = Inr (Some (trim s))"
| "opt_trim (PBool b) = Inl TypeError"
| "opt_trim (PNum x) = Inl TypeError"

text \<open>\<open>x?.toLowerCase()\<close>, in the same way.\<close>

fun opt_lower :: "prim \<Rightarrow> error + string option" where
  "opt_lower PUndefined = Inr None"
| "opt_lower PNull = Inr None"
| "opt_lower (PStr s) = Inr (Some (toLowerCase s))"
| "opt_lower (PBool b) = Inl TypeError"
| "opt_lower (PNum x) = Inl TypeError"

text \<open>A function mapped over an array; the first call that throws ends the loop.\<close>

fun map_err :: "('a \<Rightarrow> error + 'b) \<Rightarrow> 'a list \<Rightarrow> error + 'b list" where
  "map_err f [] = Inr []"
| "map_err f (x # xs) =
     bind_err (f x) (\<lambda>y. bind_err (map_err f xs) (\<lambda>ys. Inr (y # ys)))"

text \<open>
  The canonical App record. \<open>rating\<close> and \<open>sizeBytes\<close> are a number or \<open>null\<close> (\<open>None\<close>); the
  trimmed texts are a string or \<open>undefined\<close> (\<open>None\<close>); \<open>price\<close> is the raw cell;
  \<open>hasRating\<close> is the value of \<open>parseFloat(Rating) && parseFloat(Rating) > 0\<close>, which is
  NaN, 0 or a boolean.
\<close>

record app_record =
  app :: string
  category :: string
  rating :: "jsnum option"
  reviews :: jsnum
  size :: "string option"
  sizeBytes :: "jsnum option"
  installs :: "string option"
  installsNumber :: jsnum
  installsCategory :: string
  type :: "string option"
  price :: prim
  priceNumber :: jsnum
  contentRating :: "string option"
  genres :: "string option"
  lastUpdated :: "string option"
  currentVersion :: "string option"
  androidVersion :: "string option"
  isPaid :: bool
  hasRating :: prim
  isPopular :: bool

text \<open>
  The object built for one row by the \<open>map\<close> callback of processAppsData, its properties
  evaluated in the order of the object literal, followed by the test of the final
  \<open>filter\<close>: \<open>None\<close> is a row that filter drops (its name or category is empty or
  \<open>undefined\<close> after trimming).
\<close>

definition process_app_row :: "(jsnum \<Rightarrow> string) \<Rightarrow> row \<Rightarrow> error + app_record option" where
  "process_app_row ts r =
     bind_err (opt_trim (cell r ''App'')) (\<lambda>a.
     bind_err (opt_trim (cell r ''Category'')) (\<lambda>c.
     bind_err (opt_trim (cell r ''Size'')) (\<lambda>sz.
     bind_err (opt_trim (cell r ''Installs'')) (\<lambda>ins.
     bind_err (opt_trim (cell r ''Type'')) (\<lambda>ty.
     bind_err (opt_trim (cell r ''Content Rating'')) (\<lambda>cr.
     bind_err (opt_trim (cell r ''Genres'')) (\<lambda>ge.
     bind_err (opt_trim (cell r ''Last Updated'')) (\<lambda>lu.
     bind_err (opt_trim (cell r ''Current Ver'')) (\<lambda>cv.
     bind_err (opt_trim (cell r ''Android Ver'')) (\<lambda>av.
       let rt = parseFloat (to_string ts (cell r ''Rating''));
           inum = convertInstallsToNumber ts (cell r ''Installs'');
           pnum = convertPriceToNumber ts (cell r ''Price'')
       in case (a, c) of
            (Some a', Some c') \<Rightarrow>
              if a' \<noteq> [] \<and> c' \<noteq> [] then
                Inr (Some \<lparr> app = a', category = c',
                  rating = (if truthy_num rt then Some rt else None),
                  reviews = or_zero (parseInt (to_string ts (cell r ''Reviews''))),
                  size = sz,
                  sizeBytes = convertSizeToBytes ts (cell r ''Size''),
                  installs = ins,
                  installsNumber = inum,
                  installsCategory = categorizeInstalls inum,
                  type = ty,
                  price = cell r ''Price'',
                  priceNumber = pnum,
                  contentRating = cr, genres = ge, lastUpdated = lu,
                  currentVersion = cv, androidVersion = av,
                  isPaid = js_gt pnum (Fin 0),
                  hasRating = (if truthy_num rt then PBool (js_gt rt (Fin 0)) else PNum rt),
                  isPopular = js_ge inum (Fin 1000000) \<rparr>)
              else Inr None
          | _ \<Rightarrow> Inr None))))))))))"

definition processAppsData :: "(jsnum \<Rightarrow> string) \<Rightarrow> raw_input \<Rightarrow> error + app_record list" where
  "processAppsData ts rawData =
     (case rawData of
        NotArray \<Rightarrow> Inl (Error ''Invalid data format: expected array'')
      | RowArray rows \<Rightarrow>
          bind_err
            (map_err (process_app_row ts)
               (filter (\<lambda>r. truthy (cell r ''App'') \<and> truthy (cell r ''Category'')) rows))
            (\<lambda>mapped. Inr (List.map_filter (\<lambda>m. m) mapped)))"

record review_record =
  review_app :: "string option"
  translatedReview :: "string option"
  sentiment :: "string option"
  sentimentPolarity :: jsnum
  sentimentSubjectivity :: jsnum
  isPositive :: bool
  isNegative :: bool
  isNeutral :: bool

definition process_review_row :: "(jsnum \<Rightarrow> string) \<Rightarrow> row \<Rightarrow> error + review_record" where
  "process_review_row ts r =
     bind_err (opt_trim (cell r ''App'')) (\<lambda>a.
     bind_err (opt_trim (cell r ''Translated_Review'')) (\<lambda>tr.
     bind_err (opt_trim (cell r ''Sentiment'')) (\<lambda>se.
     bind_err (opt_lower (cell r ''Sentiment'')) (\<lambda>lo.
       Inr \<lparr> review_app = a, translatedReview = tr, sentiment = se,
             sentimentPolarity = or_zero (parseFloat (to_string ts (cell r ''Sentiment_Polarity''))),
             sentimentSubjectivity =
               or_zero (parseFloat (to_string ts (cell r ''Sentiment_Subjectivity''))),
             isPositive = (lo = Some ''positive''),
             isNegative = (lo = Some ''negative''),
             isNeutral = (lo = Some ''neutral'') \<rparr>))))"

definition processReviewsData :: "(jsnum \<Rightarrow> string) \<Rightarrow> raw_input \<Rightarrow> error + review_record list" where
  "processReviewsData ts rawReviews =
     (case rawReviews of
        NotArray \<Rightarrow> Inl (Error ''Invalid data format: expected array'')
      | RowArray rows \<Rightarrow>
          map_err (process_review_row ts)
            (filter (\<lambda>r. truthy (cell r ''App'') \<and> truthy (cell r ''Sentiment'') \<and>
                          cell r ''Sentiment'' \<noteq> PStr ''nan'') rows))"

text \<open>
  A row whose cells are all text: each column holds a string or \<open>null\<close>, or is absent.
\<close>

definition text_cell :: "prim \<Rightarrow> bool" where
  "text_cell v = (case v of PBool b \<Rightarrow> False | PNum x \<Rightarrow> False | _ \<Rightarrow> True)"

definition text_row :: "row \<Rightarrow> bool" where
  "text_row r = list_all (\<lambda>kv. text_cell (snd kv)) r"

subsection \<open>removeDuplicateApps\<close>

text \<open>
  lodash \<open>_.groupBy(apps, 'app')\<close>: an object from each name to the array of the records
  with that name, in input order; the association list keeps the keys in the order of
  their insertion.
\<close>

fun groupBy_add :: "(string \<times> app_record list) list \<Rightarrow> app_record \<Rightarrow> (string \<times> app_record list) list" where
  "groupBy_add [] a = [(app a, [a])]"
| "groupBy_add ((k, g) # rest) a =
     (if k = app a then (k, g @ [a]) # rest else (k, g) # groupBy_add rest a)"

definition groupBy_app :: "app_record list \<Rightarrow> (string \<times> app_record list) list" where
  "groupBy_app apps = foldl groupBy_add [] apps"

text \<open>
  \<open>Object.values\<close> lists the properties whose keys are array indices (canonical decimal
  numerals below \<open>2^32 - 1\<close>) first, in ascending numeric order, and then the other
  string keys in insertion order.
\<close>

definition is_array_index :: "string \<Rightarrow> bool" where
  "is_array_index k =
     (k \<noteq> [] \<and> list_all is_digit k \<and> (k = ''0'' \<or> hd k \<noteq> CHR ''0'') \<and>
      digits_val k < 2 ^ 32 - 1)"

definition own_entries :: "(string \<times> 'v) list \<Rightarrow> (string \<times> 'v) list" where
  "own_entries kvs =
     sort_key (\<lambda>kv. digits_val (fst kv)) (filter (\<lambda>kv. is_array_index (fst kv)) kvs) @
     filter (\<lambda>kv. \<not> is_array_index (fst kv)) kvs"

definition object_values :: "(string \<times> 'v) list \<Rightarrow> 'v list" where
  "object_values kvs = map snd (own_entries kvs)"

text \<open>
  lodash \<open>_.maxBy(group, 'reviews')\<close>: the loop keeps the value computed for the current
  maximum and the record it came from; a record replaces the maximum when its value is
  greater (the first value is taken unless it is NaN). The result is \<open>undefined\<close>
  (\<open>None\<close>) when no record was taken.
\<close>

fun maxBy_step :: "(jsnum \<times> app_record) option \<Rightarrow> app_record \<Rightarrow> (jsnum \<times> app_record) option" where
  "maxBy_step None v = (if reviews v \<noteq> NaN then Some (reviews v, v) else None)"
| "maxBy_step (Some (computed, result)) v =
     (if js_gt (reviews v) computed then Some (reviews v, v) else Some (computed, result))"

definition maxBy_reviews :: "app_record list \<Rightarrow> app_record option" where
  "maxBy_reviews appGroup = map_option snd (foldl maxBy_step None appGroup)"

text \<open>The callback of \<open>map\<close>: a group of one record gives that record.\<close>

definition dedup_group :: "app_record list \<Rightarrow> app_record option" where
  "dedup_group appGroup = (case appGroup of [a] \<Rightarrow> Some a | _ \<Rightarrow> maxBy_reviews appGroup)"

text \<open>An entry \<open>None\<close> of the result is an element \<open>undefined\<close>.\<close>

definition removeDuplicateApps :: "app_record list \<Rightarrow> app_record option list" where
  "removeDuplicateApps apps = map dedup_group (object_values (groupBy_app apps))"

text \<open>
  What grouping establishes, for the proofs: the keys are distinct, they are the names
  that occur, and the group of a name holds the records of that name in input order.
\<close>

definition grouped :: "(string \<times> app_record list) list \<Rightarrow> app_record list \<Rightarrow> bool" where
  "grouped G xs \<longleftrightarrow>
     distinct (map fst G) \<and>
     (\<forall>k. map_of G k =
        (if k \<in> app ` set xs then Some (filter (\<lambda>b. app b = k) xs) else None))"

subsection \<open>filterApps\<close>

text \<open>
  The filter configuration: each key holds a value of its kind or is absent (\<open>None\<close>,
  reading \<open>undefined\<close>).
\<close>

record filters =
  f_category :: "string option"
  f_minRating :: "jsnum option"
  f_type :: "string option"
  f_contentRating :: "string option"
  f_isPaid :: "bool option"

text \<open>The number a rating compares as: \<open>null\<close> converts to 0.\<close>

definition rating_number :: "jsnum option \<Rightarrow> jsnum" where
  "rating_number r = (case r of None \<Rightarrow> Fin 0 | Some x \<Rightarrow> x)"

text \<open>
  Each \<open>if (filters.key)\<close> tests the truthiness of the value: an absent key, the empty
  string, 0 and NaN skip the step. \<open>isPaid\<close> is tested against \<open>undefined\<close> only.
\<close>

definition filterApps :: "app_record list \<Rightarrow> filters \<Rightarrow> app_record list" where
  "filterApps apps fs =
     (let filteredApps = apps;
          filteredApps =
            (case f_category fs of
               Some c \<Rightarrow> if c \<noteq> [] then filter (\<lambda>a. category a = c) filteredApps
                         else filteredApps
             | None \<Rightarrow> filteredApps);
          filteredApps =
            (case f_minRating fs of
               Some m \<Rightarrow> if truthy_num m
                         then filter (\<lambda>a. js_ge (rating_number (rating a)) m) filteredApps
                         else filteredApps
             | None \<Rightarrow> filteredApps);
          filteredApps =
            (case f_type fs of
               Some t \<Rightarrow> if t \<noteq> [] then filter (\<lambda>a. type a = Some t) filteredApps
                         else filteredApps
             | None \<Rightarrow> filteredApps);
          filteredApps =
            (case f_contentRating fs of
               Some c \<Rightarrow> if c \<noteq> [] then filter (\<lambda>a. contentRating a = Some c) filteredApps
                         else filteredApps
             | None \<Rightarrow> filteredApps);
          filteredApps =
            (case f_isPaid fs of
               Some p \<Rightarrow> filter (\<lambda>a. isPaid a = p) filteredApps
             | None \<Rightarrow> filteredApps)
      in filteredApps)"

text \<open>
  Two readings of the filter, to compare filterApps with. In the specification's reading
  every key that is present constrains the record. In the code's, a key constrains it
  when its value is truthy (for \<open>isPaid\<close>: when it is present).
\<close>

definition matches_present :: "filters \<Rightarrow> app_record \<Rightarrow> bool" where
  "matches_present fs a =
     ((\<forall>c. f_category fs = Some c \<longrightarrow> category a = c) \<and>
      (\<forall>m. f_minRating fs = Some m \<longrightarrow> js_ge (rating_number (rating a)) m) \<and>
      (\<forall>t. f_type fs = Some t \<longrightarrow> type a = Some t) \<and>
      (\<forall>c. f_contentRating fs = Some c \<longrightarrow> contentRating a = Some c) \<and>
      (\<forall>p. f_isPaid fs = Some p \<longrightarrow> isPaid a = p))"

definition matches_truthy :: "filters \<Rightarrow> app_record \<Rightarrow> bool" where
  "matches_truthy fs a =
     ((\<forall>c. f_category fs = Some c \<and> c \<noteq> [] \<longrightarrow> category a = c) \<and>
      (\<forall>m. f_minRating fs = Some m \<and> truthy_num m \<longrightarrow> js_ge (rating_number (rating a)) m) \<and>
      (\<forall>t. f_type fs = Some t \<and> t \<noteq> [] \<longrightarrow> type a = Some t) \<and>
      (\<forall>c. f_contentRating fs = Some c \<and> c \<noteq> [] \<longrightarrow> contentRating a = Some c) \<and>
      (\<forall>p. f_isPaid fs = Some p \<longrightarrow> isPaid a = p))"

text \<open>A record to evaluate the functions on: a free game with a rating.\<close>

definition sample_app :: app_record where
  "sample_app =
     \<lparr> app = ''X'', category = ''GAME'', rating = Some (Fin 4.8), reviews = Fin 100,
       size = Some ''19M'', sizeBytes = Some (Fin 19922944), installs = Some ''1,000,000+'',
       installsNumber = Fin 1000000, installsCategory = ''1M-10M'', type = Some ''Free'',
       price = PStr ''0'', priceNumber = Fin 0, contentRating = Some ''Everyone'',
       genres = Some ''Action'', lastUpdated = None, currentVersion = None,
       androidVersion = None, isPaid = False, hasRating = PBool True, isPopular = True \<rparr>"

section \<open>Statistical toolkit (statisticalAnalysis.js)\<close>

text \<open>
  An element of a numeric array: \<open>null\<close>, \<open>undefined\<close> or a number (which may be NaN).
\<close>

datatype numval = Null | Undefined | Num jsnum

text \<open>The global \<open>isNaN(v)\<close> converts its argument first: \<open>null\<close> becomes 0, \<open>undefined\<close> NaN.\<close>

fun to_number :: "numval \<Rightarrow> jsnum" where
  "to_number Null = Fin 0"
| "to_number Undefined = NaN"
| "to_number (Num x) = x"

definition is_clean :: "numval \<Rightarrow> bool" where
  "is_clean v = (v \<noteq> Null \<and> v \<noteq> Undefined \<and> \<not> isNaN (to_number v))"

definition cleanNumbers :: "numval list \<Rightarrow> jsnum list" where
  "cleanNumbers values = map to_number (filter is_clean values)"

subsection \<open>Library functions used by the toolkit\<close>

text \<open>
  \<open>Array.prototype.sort((a, b) => a - b)\<close>: a stable ascending sort (insertion after the
  equal elements).
\<close>

fun insert_num :: "jsnum \<Rightarrow> jsnum list \<Rightarrow> jsnum list" where
  "insert_num x [] = [x]"
| "insert_num x (y # ys) = (if js_less x y then x # y # ys else y # insert_num x ys)"

definition sort_num :: "jsnum list \<Rightarrow> jsnum list" where
  "sort_num xs = foldl (\<lambda>acc x. insert_num x acc) [] xs"

text \<open>lodash \<open>_.sum\<close> and \<open>_.mean\<close>: the sum of no elements is 0, the mean of none is NaN.\<close>

definition lodash_sum :: "jsnum list \<Rightarrow> jsnum" where
  "lodash_sum xs = (case xs of [] \<Rightarrow> Fin 0 | x # rest \<Rightarrow> foldl js_add x rest)"

definition lodash_mean :: "jsnum list \<Rightarrow> jsnum" where
  "lodash_mean xs =
     (case xs of [] \<Rightarrow> NaN
      | x # rest \<Rightarrow> js_div (foldl js_add x rest) (Fin (real (length xs))))"

text \<open>\<open>Math.min(...xs)\<close> and \<open>Math.max(...xs)\<close>: NaN if any argument is NaN.\<close>

definition math_min :: "jsnum list \<Rightarrow> jsnum" where
  "math_min xs =
     (if NaN \<in> set xs then NaN
      else foldl (\<lambda>m x. if js_less x m then x else m) PInf xs)"

definition math_max :: "jsnum list \<Rightarrow> jsnum" where
  "math_max xs =
     (if NaN \<in> set xs then NaN
      else foldl (\<lambda>m x. if js_less m x then x else m) NInf xs)"

text \<open>
  mathjs \<open>median\<close>: the middle element of the ascending order, or the half sum of the two
  middle elements; it throws on an empty array.
\<close>

definition math_median :: "jsnum list \<Rightarrow> error + jsnum" where
  "math_median xs =
     (let num = length xs; s = sort_num xs in
      if num = 0 then Inl (Error ''Cannot calculate median of an empty array'')
      else if num mod 2 = 0
        then Inr (js_div (js_add (s ! (num div 2 - 1)) (s ! (num div 2))) (Fin 2))
        else Inr (s ! ((num - 1) div 2)))"

text \<open>
  mathjs \<open>mode\<close> walks the array once with a table of counts, the running maximum and the
  list of values that have reached it; the result is that list (an array, also when it has
  one element).
\<close>

fun mode_step :: "(jsnum \<Rightarrow> nat) \<times> jsnum list \<times> nat \<Rightarrow> jsnum \<Rightarrow> (jsnum \<Rightarrow> nat) \<times> jsnum list \<times> nat" where
  "mode_step (cnt, md, mx) v =
     (let c = cnt v + 1; cnt' = cnt (v := c) in
      if c = mx then (cnt', md @ [v], mx)
      else if mx < c then (cnt', [v], c)
      else (cnt', md, mx))"

definition math_mode :: "jsnum list \<Rightarrow> error + jsnum list" where
  "math_mode xs =
     (if xs = [] then Inl (Error ''Cannot calculate mode of an empty array'')
      else if NaN \<in> set xs
        then Inl (Error ''Cannot calculate mode of an array containing NaN values'')
      else Inr (fst (snd (foldl mode_step (\<lambda>_. 0, [], 0) xs))))"

text \<open>
  mathjs \<open>variance\<close> with its default normalisation \<open>'unbiased'\<close>: the sum of squared
  differences to the mean, divided by \<open>n - 1\<close> (0 for a single value).
\<close>

definition math_variance :: "jsnum list \<Rightarrow> error + jsnum" where
  "math_variance xs =
     (case xs of
        [] \<Rightarrow> Inl (SyntaxError ''Function variance requires one or more parameters (0 provided)'')
      | x # rest \<Rightarrow>
          (let num = length xs;
               mean = js_div (foldl js_add x rest) (Fin (real num));
               sq = (\<lambda>v. js_mul (js_sub v mean) (js_sub v mean));
               sum = foldl (\<lambda>acc v. js_add acc (sq v)) (sq x) rest
           in if isNaN sum then Inr sum
              else if num = 1 then Inr (Fin 0)
              else Inr (js_div sum (Fin (real (num - 1))))))"

text \<open>mathjs \<open>std\<close>: the square root of the variance, same default normalisation.\<close>

definition math_std :: "jsnum list \<Rightarrow> error + jsnum" where
  "math_std xs = bind_err (math_variance xs) (\<lambda>v. Inr (js_sqrt v))"

text \<open>
  \<open>math.var\<close>. The module is imported as a namespace (\<open>import * as math from 'mathjs'\<close>) and
  mathjs 11.11.0, the version the project names, exports the variance as \<open>variance\<close>
  only (\<open>var\<close> was its name up to mathjs 5). So \<open>math.var\<close> is \<open>undefined\<close>, and calling it
  throws a TypeError, whatever the argument.
\<close>

definition math_var :: "jsnum list \<Rightarrow> error + jsnum" where
  "math_var xs = Inl TypeError"

text \<open>
  mathjs \<open>quantileSeq(xs, p)\<close> for a number \<open>p\<close>: with \<open>index = p * (n - 1)\<close>, the element
  of the ascending order at \<open>index\<close> when that is whole, and otherwise the two neighbours
  interpolated by the fractional part.
\<close>

definition math_quantileSeq :: "jsnum list \<Rightarrow> real \<Rightarrow> error + jsnum" where
  "math_quantileSeq xs p =
     (let len = length xs; s = sort_num xs;
          index = p * real (len - 1);
          fracPart = frac index;
          integerPart = nat \<lfloor>index\<rfloor>
      in if len = 0 then Inl (Error ''Cannot calculate quantile of an empty sequence'')
         else if p < 0 \<or> 1 < p then Inl (Error ''Probability must be between 0 and 1, inclusive'')
         else if fracPart = 0 then Inr (s ! integerPart)
         else Inr (js_add (js_mul (s ! integerPart) (Fin (1 - fracPart)))
                          (js_mul (s ! (integerPart + 1)) (Fin fracPart))))"

subsection \<open>calculateBasicStats\<close>

record stats =
  count :: nat
  mean :: jsnum
  median :: jsnum
  mode :: "jsnum list option"
  min_value :: jsnum
  max_value :: jsnum
  std :: jsnum
  variance :: jsnum
  q1 :: jsnum
  q3 :: jsnum
  iqr :: jsnum

definition zero_stats :: stats where
  "zero_stats = \<lparr> count = 0, mean = Fin 0, median = Fin 0, mode = None,
     min_value = Fin 0, max_value = Fin 0, std = Fin 0, variance = Fin 0,
     q1 = Fin 0, q3 = Fin 0, iqr = Fin 0 \<rparr>"

text \<open>
  The fields of the result are evaluated in the order of the object literal; the first
  library call that throws ends the function. \<open>mode = None\<close> is \<open>null\<close>.
\<close>

definition calculateBasicStats :: "numval list \<Rightarrow> error + stats" where
  "calculateBasicStats values =
     (let cleanValues = cleanNumbers values in
      if length cleanValues = 0 then Inr zero_stats
      else
        let sorted = sort_num cleanValues; n = length cleanValues in
        bind_err (math_median cleanValues) (\<lambda>med.
        bind_err (math_mode cleanValues) (\<lambda>mo.
        bind_err (math_std cleanValues) (\<lambda>sd.
        bind_err (math_var cleanValues) (\<lambda>var.
        bind_err (math_quantileSeq sorted 0.25) (\<lambda>qa.
        bind_err (math_quantileSeq sorted 0.75) (\<lambda>qb.
        bind_err (math_quantileSeq sorted 0.75) (\<lambda>qc.
        bind_err (math_quantileSeq sorted 0.25) (\<lambda>qd.
          Inr \<lparr> count = n, mean = lodash_mean cleanValues, median = med,
                mode = Some mo, min_value = math_min cleanValues,
                max_value = math_max cleanValues, std = sd, variance = var,
                q1 = qa, q3 = qb, iqr = js_sub qc qd \<rparr>)))))))))"

subsection \<open>calculateCorrelation\<close>

text \<open>
  Whether a correlation is 0 or not can hang on one rounding, so the arithmetic of this
  function is modelled with the rounding made explicit: \<open>rnd\<close> is applied to the result of
  every operation. With the identity for \<open>rnd\<close> the arithmetic is exact inside the range of
  doubles, as in the rest of this theory; with \<open>round_to_double\<close> it is that of IEEE 754
  doubles: the nearest double, ties to even. A double is a multiple of \<open>2^(e - 52)\<close>, where
  \<open>2^e \<le> |x| < 2^(e + 1)\<close>, and of \<open>2^-1074\<close> at least.
\<close>

fun find_exp :: "nat \<Rightarrow> real \<Rightarrow> int \<Rightarrow> int" where
  "find_exp 0 x e = e"
| "find_exp (Suc k) x e =
     (if 2 \<le> x then find_exp k (x / 2) (e + 1)
      else if x < 1 then find_exp k (x * 2) (e - 1)
      else e)"

text \<open>
  The exponent \<open>e\<close> with \<open>2^e \<le> |x| < 2^(e + 1)\<close>, for \<open>x\<close> in the range of doubles (the
  search gives up after 1100 steps, below every exponent of a double).
\<close>

definition binade :: "real \<Rightarrow> int" where
  "binade x = find_exp 1100 \<bar>x\<bar> 0"

definition round_half_even :: "real \<Rightarrow> int" where
  "round_half_even y =
     (let f = \<lfloor>y\<rfloor>; r = y - of_int f in
      if r < 1 / 2 then f
      else if 1 / 2 < r then f + 1
      else if even f then f else f + 1)"

definition round_to_double :: "real \<Rightarrow> real" where
  "round_to_double x =
     (if x = 0 then 0
      else
        let e = max (binade x - 52) (- 1074) in
        if 0 \<le> e then of_int (round_half_even (x / 2 ^ nat e)) * 2 ^ nat e
        else of_int (round_half_even (x * 2 ^ nat (- e))) / 2 ^ nat (- e))"

definition rounded :: "(real \<Rightarrow> real) \<Rightarrow> jsnum \<Rightarrow> jsnum" where
  "rounded rnd x = (case x of Fin a \<Rightarrow> Fin (rnd a) | _ \<Rightarrow> x)"

text \<open>
  mathjs \<open>sum\<close> of an array of numbers (0 for the empty array) and mathjs \<open>corr\<close> of two
  arrays: with \<open>n\<close> the length, the numerator \<open>n * sumXY - sumX * sumY\<close> divided by the
  square root of \<open>(n * sumXSquare - sumX^2) * (n * sumYSquare - sumY^2)\<close>; it throws when
  the lengths differ. A square is \<open>pow(x, 2)\<close>, which is \<open>Math.pow(x, 2)\<close> on numbers: the
  product \<open>x * x\<close>, rounded. (The square root of a negative number is a complex number in
  mathjs, which the caller's \<open>isNaN\<close> test treats as it treats NaN.)
\<close>

definition math_sum :: "(real \<Rightarrow> real) \<Rightarrow> jsnum list \<Rightarrow> jsnum" where
  "math_sum rnd xs =
     (case xs of [] \<Rightarrow> Fin 0 | x # rest \<Rightarrow> foldl (\<lambda>acc v. rounded rnd (js_add acc v)) x rest)"

definition corr_numerator :: "(real \<Rightarrow> real) \<Rightarrow> jsnum list \<Rightarrow> jsnum list \<Rightarrow> jsnum" where
  "corr_numerator rnd A B =
     (let add = (\<lambda>a b. rounded rnd (js_add a b));
          subtract = (\<lambda>a b. rounded rnd (js_sub a b));
          multiply = (\<lambda>a b. rounded rnd (js_mul a b));
          n = Fin (real (length A));
          sumX = math_sum rnd A;
          sumY = math_sum rnd B;
          sumXY = foldl (\<lambda>acc (x, y). add acc (multiply x y)) (Fin 0) (zip A B)
      in subtract (multiply n sumXY) (multiply sumX sumY))"

text \<open>The argument of the square root in the denominator.\<close>

definition corr_radicand :: "(real \<Rightarrow> real) \<Rightarrow> jsnum list \<Rightarrow> jsnum list \<Rightarrow> jsnum" where
  "corr_radicand rnd A B =
     (let subtract = (\<lambda>a b. rounded rnd (js_sub a b));
          multiply = (\<lambda>a b. rounded rnd (js_mul a b));
          n = Fin (real (length A));
          sumX = math_sum rnd A;
          sumY = math_sum rnd B;
          sumXSquare = math_sum rnd (map (\<lambda>x. multiply x x) A);
          sumYSquare = math_sum rnd (map (\<lambda>y. multiply y y) B)
      in multiply (subtract (multiply n sumXSquare) (multiply sumX sumX))
                  (subtract (multiply n sumYSquare) (multiply sumY sumY)))"

definition math_corr :: "(real \<Rightarrow> real) \<Rightarrow> jsnum list \<Rightarrow> jsnum list \<Rightarrow> error + jsnum" where
  "math_corr rnd A B =
     (if length A \<noteq> length B
      then Inl (SyntaxError ''Dimension mismatch. Array A and B must have the same number of elements.'')
      else
        let numerator = corr_numerator rnd A B;
            denominator = rounded rnd (js_sqrt (corr_radicand rnd A B))
        in Inr (rounded rnd (js_div numerator denominator)))"

text \<open>The pairs that calculateCorrelation keeps: both elements clean.\<close>

definition clean_pairs :: "numval list \<Rightarrow> numval list \<Rightarrow> (numval \<times> numval) list" where
  "clean_pairs x y = filter (\<lambda>(xi, yi). is_clean xi \<and> is_clean yi) (zip x y)"

definition calculateCorrelation :: "(real \<Rightarrow> real) \<Rightarrow> numval list \<Rightarrow> numval list \<Rightarrow> jsnum" where
  "calculateCorrelation rnd x y =
     (if length x \<noteq> length y \<or> length x = 0 then Fin 0
      else
        let pairs = clean_pairs x y in
        if length pairs < 2 then Fin 0
        else
          let xClean = map (\<lambda>p. to_number (fst p)) pairs;
              yClean = map (\<lambda>p. to_number (snd p)) pairs
          in case math_corr rnd xClean yClean of
               Inl e \<Rightarrow> Fin 0
             | Inr correlation \<Rightarrow> if isNaN correlation then Fin 0 else correlation)"

subsection \<open>analyzeRatingDistribution and identifyOutliers\<close>

record rating_buckets =
  bucket_1_0_1_9 :: nat
  bucket_2_0_2_9 :: nat
  bucket_3_0_3_9 :: nat
  bucket_4_0_4_4 :: nat
  bucket_4_5_5_0 :: nat

text \<open>\<open>distribution = None\<close> is the empty object returned when no rating is left.\<close>

record rating_distribution =
  total :: nat
  distribution :: "rating_buckets option"
  dist_stats :: stats

definition analyzeRatingDistribution :: "numval list \<Rightarrow> error + rating_distribution" where
  "analyzeRatingDistribution ratings =
     (let cleanRatings =
            map to_number
              (filter (\<lambda>r. r \<noteq> Null \<and> \<not> isNaN (to_number r) \<and> js_gt (to_number r) (Fin 0)) ratings)
      in if length cleanRatings = 0
         then bind_err (calculateBasicStats [])
                (\<lambda>st. Inr \<lparr> total = 0, distribution = None, dist_stats = st \<rparr>)
         else
           let between = (\<lambda>lo hi. length (filter (\<lambda>r. js_ge r (Fin lo) \<and> js_less r (Fin hi)) cleanRatings));
               dist = \<lparr> bucket_1_0_1_9 = between 1 2, bucket_2_0_2_9 = between 2 3,
                        bucket_3_0_3_9 = between 3 4, bucket_4_0_4_4 = between 4 4.5,
                        bucket_4_5_5_0 =
                          length (filter (\<lambda>r. js_ge r (Fin 4.5) \<and> js_le r (Fin 5)) cleanRatings) \<rparr>
           in bind_err (calculateBasicStats (map Num cleanRatings))
                (\<lambda>st. Inr \<lparr> total = length cleanRatings, distribution = Some dist,
                             dist_stats = st \<rparr>))"

text \<open>\<open>outlierPercentage = None\<close>: the short result has no such property.\<close>

record outlier_analysis =
  outliers :: "jsnum list"
  lowerBound :: jsnum
  upperBound :: jsnum
  outlierCount :: nat
  outlierPercentage :: "jsnum option"

definition identifyOutliers :: "numval list \<Rightarrow> error + outlier_analysis" where
  "identifyOutliers values =
     (let cleanValues = map to_number (filter (\<lambda>v. v \<noteq> Null \<and> \<not> isNaN (to_number v)) values)
      in if length cleanValues < 4
         then Inr \<lparr> outliers = [], lowerBound = Fin 0, upperBound = Fin 0, outlierCount = 0,
                    outlierPercentage = None \<rparr>
         else
           bind_err (calculateBasicStats (map Num cleanValues)) (\<lambda>st.
             let lowerBound = js_sub (q1 st) (js_mul (Fin 1.5) (iqr st));
                 upperBound = js_add (q3 st) (js_mul (Fin 1.5) (iqr st));
                 outliers = filter (\<lambda>v. js_less v lowerBound \<or> js_gt v upperBound) cleanValues
             in Inr \<lparr> outliers = outliers, lowerBound = lowerBound, upperBound = upperBound,
                       outlierCount = length outliers,
                       outlierPercentage =
                         Some (js_mul (js_div (Fin (real (length outliers)))
                                              (Fin (real (length cleanValues)))) (Fin 100)) \<rparr>))"

section \<open>Aggregation engine (analytics.js)\<close>

text \<open>Truthiness of a rating, which is a number or \<open>null\<close>.\<close>

definition rated :: "app_record \<Rightarrow> bool" where
  "rated a = (case rating a of None \<Rightarrow> False | Some x \<Rightarrow> truthy_num x)"

text \<open>A percentage as the source computes each: \<open>(count / total) * 100\<close>.\<close>

definition percentage :: "nat \<Rightarrow> nat \<Rightarrow> jsnum" where
  "percentage cnt tot = js_mul (js_div (Fin (real cnt)) (Fin (real tot))) (Fin 100)"

record overview =
  totalApps :: nat
  appsWithRatings :: nat
  paidApps :: nat
  freeApps :: nat
  popularApps :: nat
  totalInstalls :: jsnum
  totalReviews :: jsnum
  avgRating :: jsnum
  ratingsPercentage :: jsnum
  paidAppsPercentage :: jsnum
  popularAppsPercentage :: jsnum

definition generateOverviewAnalytics :: "app_record list \<Rightarrow> overview" where
  "generateOverviewAnalytics apps =
     (let totalApps = length apps;
          appsWithRatings = filter (\<lambda>a. truthy (hasRating a)) apps;
          paidApps = filter isPaid apps;
          popularApps = filter isPopular apps;
          totalInstalls = lodash_sum (map installsNumber apps);
          totalReviews = lodash_sum (map reviews apps);
          avgRating = lodash_mean (map (\<lambda>a. rating_number (rating a)) (filter rated apps))
      in \<lparr> totalApps = totalApps,
           appsWithRatings = length appsWithRatings,
           paidApps = length paidApps,
           freeApps = totalApps - length paidApps,
           popularApps = length popularApps,
           totalInstalls = totalInstalls,
           totalReviews = totalReviews,
           avgRating = or_zero avgRating,
           ratingsPercentage = percentage (length appsWithRatings) totalApps,
           paidAppsPercentage = percentage (length paidApps) totalApps,
           popularAppsPercentage = percentage (length popularApps) totalApps \<rparr>)"

text \<open>
  \<open>Array.prototype.sort\<close> with a comparator: stable; an element goes before the first
  one it compares below.
\<close>

fun insert_by :: "('a \<Rightarrow> 'a \<Rightarrow> jsnum) \<Rightarrow> 'a \<Rightarrow> 'a list \<Rightarrow> 'a list" where
  "insert_by cmp x [] = [x]"
| "insert_by cmp x (y # ys) =
     (if js_less (cmp x y) (Fin 0) then x # y # ys else y # insert_by cmp x ys)"

definition sort_by :: "('a \<Rightarrow> 'a \<Rightarrow> jsnum) \<Rightarrow> 'a list \<Rightarrow> 'a list" where
  "sort_by cmp xs = foldl (\<lambda>acc x. insert_by cmp x acc) [] xs"

record rating_analytics =
  ratingDistribution :: rating_distribution
  ratingStats :: stats
  ratingOutliers :: outlier_analysis
  topRatedApps :: "app_record list"
  poorlyRatedApps :: "app_record list"
  highRatedPercentage :: jsnum

definition generateRatingAnalytics :: "app_record list \<Rightarrow> error + rating_analytics" where
  "generateRatingAnalytics apps =
     (let ratings = map (\<lambda>a. Num (rating_number (rating a))) (filter rated apps) in
      bind_err (analyzeRatingDistribution ratings) (\<lambda>ratingDistribution.
      bind_err (calculateBasicStats ratings) (\<lambda>ratingStats.
      bind_err (identifyOutliers ratings) (\<lambda>ratingOutliers.
        let topRatedApps =
              take 10 (sort_by (\<lambda>a b. js_sub (rating_number (rating b)) (rating_number (rating a)))
                (filter (\<lambda>a. js_ge (rating_number (rating a)) (Fin 4.5)) apps));
            poorlyRatedApps =
              take 10 (sort_by (\<lambda>a b. js_sub (rating_number (rating a)) (rating_number (rating b)))
                (filter (\<lambda>a. js_less (rating_number (rating a)) (Fin 3) \<and>
                              js_gt (rating_number (rating a)) (Fin 0)) apps))
        in Inr \<lparr> ratingDistribution = ratingDistribution,
                  ratingStats = ratingStats,
                  ratingOutliers = ratingOutliers,
                  topRatedApps = topRatedApps,
                  poorlyRatedApps = poorlyRatedApps,
                  highRatedPercentage =
                    percentage
                      (length (filter (\<lambda>a. js_ge (rating_number (rating a)) (Fin 4)) apps))
                      (length (filter rated apps)) \<rparr>))))"

record 'a by_sentiment =
  positive :: 'a
  negative :: 'a
  neutral :: 'a

record sentiment_analytics =
  sentiment_totalReviews :: nat
  sentimentCounts :: "nat by_sentiment"
  sentimentPercentages :: "jsnum by_sentiment"
  polarityStats :: stats
  subjectivityStats :: stats

definition generateSentimentAnalytics :: "review_record list \<Rightarrow> error + sentiment_analytics" where
  "generateSentimentAnalytics revs =
     (let sentimentCounts =
            \<lparr> positive = length (filter isPositive revs),
              negative = length (filter isNegative revs),
              neutral = length (filter isNeutral revs) \<rparr>;
          total = length revs;
          sentimentPercentages =
            \<lparr> positive = percentage (positive sentimentCounts) total,
              negative = percentage (negative sentimentCounts) total,
              neutral = percentage (neutral sentimentCounts) total \<rparr>
      in
      bind_err (calculateBasicStats
                  (map Num (filter (\<lambda>p. \<not> isNaN p) (map sentimentPolarity revs)))) (\<lambda>polarityStats.
      bind_err (calculateBasicStats
                  (map Num (filter (\<lambda>s. \<not> isNaN s) (map sentimentSubjectivity revs)))) (\<lambda>subjectivityStats.
        Inr \<lparr> sentiment_totalReviews = total,
              sentimentCounts = sentimentCounts,
              sentimentPercentages = sentimentPercentages,
              polarityStats = polarityStats,
              subjectivityStats = subjectivityStats \<rparr>)))"

section \<open>Properties\<close>

subsection \<open>The range of doubles\<close>

lemma double_limit_large: "10 ^ 30 < double_limit"
  by (simp add: double_limit_def)

lemma below_double_limit [simp]: "v < 10 ^ 30 \<Longrightarrow> \<not> double_limit \<le> v"
  using double_limit_large by linarith

lemma above_neg_double_limit [simp]: "- (10 ^ 30) < v \<Longrightarrow> \<not> v \<le> - double_limit"
  using double_limit_large by linarith

lemma real_double_limit_large: "10 ^ 30 < real_of_int double_limit"
proof -
  have "real_of_int (10 ^ 30) < real_of_int double_limit"
    using double_limit_large by (simp only: of_int_less_iff)
  then show ?thesis by simp
qed

lemma double_tiny_small: "0 < double_tiny" "double_tiny < 1 / 10 ^ 30"
  by (simp_all add: double_tiny_def field_simps)

text \<open>Between \<open>10^-30\<close> and \<open>10^30\<close> in magnitude, and at 0, a value is in the range.\<close>

lemma to_double_id [simp]:
  "\<bar>x\<bar> < 10 ^ 30 \<Longrightarrow> x = 0 \<or> 1 / 10 ^ 30 \<le> \<bar>x\<bar> \<Longrightarrow> to_double x = Fin x"
  using real_double_limit_large double_tiny_small unfolding to_double_def
  by (cases "x = 0") (simp_all, linarith+)

lemma to_double_not_NaN: "to_double x \<noteq> NaN"
  by (simp add: to_double_def)

text \<open>The same function, with the test that settles most evaluations first.\<close>

lemma to_double_code [code]:
  "to_double x =
     (if \<bar>x\<bar> < 10 ^ 30 \<and> (x = 0 \<or> 1 / 10 ^ 30 \<le> \<bar>x\<bar>) then Fin x
      else if real_of_int double_limit \<le> x then PInf
      else if x \<le> - real_of_int double_limit then NInf
      else if \<bar>x\<bar> \<le> double_tiny then Fin 0
      else Fin x)"
  using to_double_id [of x] by (simp add: to_double_def)

lemmas parse_defs = parseFloat_def parseInt_def split_sign_def is_ws_def is_digit_def is_hex_def digits_val_def hex_val_def digit_of_def hex_of_def exponent_part_def scale10_def to_double_range_def or_zero_def truthy_num_def Let_def

text \<open>Beyond the range: a product and two numerals read by parseFloat.\<close>

lemma js_mul_overflow_example: "js_mul (Fin (10 ^ 308)) (Fin 1024) = PInf"
  by (simp add: to_double_def double_limit_def)

lemma parseFloat_overflow_example: "parseFloat ''1e400'' = PInf \<and> parseFloat ''1e-400'' = Fin 0"
  by (simp add: parse_defs to_double_def double_limit_def double_tiny_def)

subsection \<open>The cleaned set\<close>

lemma not_clean:
  "v = Null \<or> v = Undefined \<or> v = Num NaN \<Longrightarrow> \<not> is_clean v"
  by (elim disjE) (simp_all add: is_clean_def isNaN_def)

lemma cleanNumbers_all_dropped:
  assumes "\<forall>v \<in> set values. v = Null \<or> v = Undefined \<or> v = Num NaN"
  shows "cleanNumbers values = []"
proof -
  have "\<forall>v \<in> set values. \<not> is_clean v"
    using assms not_clean by blast
  then have "filter is_clean values = []"
    by (simp add: filter_empty_conv)
  then show ?thesis by (simp add: cleanNumbers_def)
qed

lemma calculateBasicStats_no_clean:
  "cleanNumbers values = [] \<Longrightarrow> calculateBasicStats values = Inr zero_stats"
  by (simp add: calculateBasicStats_def)

text \<open>
  C9. For every array whose elements are all \<open>null\<close>, \<open>undefined\<close> or NaN (the empty array
  included), calculateBasicStats returns, without throwing, exactly the struct with count 0,
  mode \<open>null\<close> and every other field 0; no field is NaN.
\<close>

theorem calculateBasicStats_empty:
  assumes "\<forall>v \<in> set values. v = Null \<or> v = Undefined \<or> v = Num NaN"
  shows "calculateBasicStats values =
           Inr \<lparr> count = 0, mean = Fin 0, median = Fin 0, mode = None,
                 min_value = Fin 0, max_value = Fin 0, std = Fin 0, variance = Fin 0,
                 q1 = Fin 0, q3 = Fin 0, iqr = Fin 0 \<rparr>"
  using calculateBasicStats_no_clean [OF cleanNumbers_all_dropped [OF assms]]
  unfolding zero_stats_def .

theorem calculateBasicStats_empty_witness:
  "calculateBasicStats [Null, Num NaN, Undefined] =
     Inr \<lparr> count = 0, mean = Fin 0, median = Fin 0, mode = None,
           min_value = Fin 0, max_value = Fin 0, std = Fin 0, variance = Fin 0,
           q1 = Fin 0, q3 = Fin 0, iqr = Fin 0 \<rparr>"
proof -
  have h: "\<forall>v \<in> set [Null, Num NaN, Undefined]. v = Null \<or> v = Undefined \<or> v = Num NaN"
    by simp
  show ?thesis by (rule calculateBasicStats_empty [OF h])
qed


subsection \<open>Install counts and their ranges\<close>

lemma find_range:
  assumes "0 \<le> n"
  shows "find (in_range (Fin n)) INSTALL_RANGES =
    Some (if n < 1000 then \<lparr> label = ''0-1K'', range_min = Fin 0, range_max = Fin 1000 \<rparr>
     else if n < 10000 then \<lparr> label = ''1K-10K'', range_min = Fin 1000, range_max = Fin 10000 \<rparr>
     else if n < 100000 then \<lparr> label = ''10K-100K'', range_min = Fin 10000, range_max = Fin 100000 \<rparr>
     else if n < 1000000 then \<lparr> label = ''100K-1M'', range_min = Fin 100000, range_max = Fin 1000000 \<rparr>
     else if n < 10000000 then \<lparr> label = ''1M-10M'', range_min = Fin 1000000, range_max = Fin 10000000 \<rparr>
     else if n < 100000000 then \<lparr> label = ''10M-100M'', range_min = Fin 10000000, range_max = Fin 100000000 \<rparr>
     else \<lparr> label = ''100M+'', range_min = Fin 100000000, range_max = PInf \<rparr>)"
  using assms by (simp add: INSTALL_RANGES_def in_range_def js_ge_def js_le_def)

lemma in_range_unique:
  assumes "r \<in> set INSTALL_RANGES" "in_range (Fin n) r"
  shows "find (in_range (Fin n)) INSTALL_RANGES = Some r"
  using assms
  by (simp add: INSTALL_RANGES_def in_range_def js_ge_def js_le_def) (elim disjE; (simp, arith?))

lemma find_in: "find P xs = Some r \<Longrightarrow> r \<in> set xs \<and> P r"
  by (induction xs) (auto split: if_splits)

lemma neg_unknown: "n < 0 \<Longrightarrow> categorizeInstalls (Fin n) = ''Unknown''"
  by (simp add: categorizeInstalls_def INSTALL_RANGES_def in_range_def js_ge_def js_le_def)
lemma inf_unknown: "categorizeInstalls PInf = ''Unknown''" "categorizeInstalls NInf = ''Unknown''" "categorizeInstalls NaN = ''Unknown''"
  by (simp_all add: categorizeInstalls_def INSTALL_RANGES_def in_range_def js_ge_def js_le_def)

lemma label_known: "r \<in> set INSTALL_RANGES \<Longrightarrow> label r \<noteq> ''Unknown''"
  by (simp add: INSTALL_RANGES_def) (elim disjE; simp)

lemma no_range_neg: "n < 0 \<Longrightarrow> r \<in> set INSTALL_RANGES \<Longrightarrow> \<not> in_range (Fin n) r"
  by (simp add: INSTALL_RANGES_def in_range_def js_ge_def js_le_def) (elim disjE; simp)

lemma no_range_inf: "r \<in> set INSTALL_RANGES \<Longrightarrow> \<not> in_range PInf r \<and> \<not> in_range NInf r"
  by (simp add: INSTALL_RANGES_def in_range_def js_ge_def js_le_def) (elim disjE; simp)

lemma or_zero_not_NaN: "or_zero x \<noteq> NaN"
  by (simp add: or_zero_def truthy_num_def)

lemma convertInstallsToNumber_not_NaN: "convertInstallsToNumber ts v \<noteq> NaN"
  by (simp add: convertInstallsToNumber_def Let_def or_zero_not_NaN)

lemma one_bucket:
  assumes "0 \<le> n"
  shows "(\<exists>!r. r \<in> set INSTALL_RANGES \<and> in_range (Fin n) r) \<and>
         (\<exists>r \<in> set INSTALL_RANGES. in_range (Fin n) r \<and> categorizeInstalls (Fin n) = label r) \<and>
         categorizeInstalls (Fin n) \<noteq> ''Unknown''"
proof -
  from find_range [OF assms]
  obtain r where f: "find (in_range (Fin n)) INSTALL_RANGES = Some r"
    by (rule exI [THEN exE])
  have r: "r \<in> set INSTALL_RANGES \<and> in_range (Fin n) r"
    using f by (rule find_in)
  have c: "categorizeInstalls (Fin n) = label r"
    by (simp add: categorizeInstalls_def f)
  have u: "r' = r" if "r' \<in> set INSTALL_RANGES \<and> in_range (Fin n) r'" for r'
  proof -
    have "find (in_range (Fin n)) INSTALL_RANGES = Some r'"
      using that by (simp add: in_range_unique)
    then show ?thesis using f by simp
  qed
  have 1: "\<exists>!r. r \<in> set INSTALL_RANGES \<and> in_range (Fin n) r"
    using r u by (rule ex1I)
  have 2: "\<exists>r \<in> set INSTALL_RANGES. in_range (Fin n) r \<and> categorizeInstalls (Fin n) = label r"
    using r c by (intro bexI [of _ r]) simp_all
  have 3: "categorizeInstalls (Fin n) \<noteq> ''Unknown''"
    unfolding c using r by (intro label_known) simp
  show ?thesis using 1 2 3 by (intro conjI)
qed

lemma split_sign_nonneg:
  assumes "CHR ''-'' \<notin> set t"
  shows "fst (split_sign t) = False"
  using assms by (cases t) (auto simp: split_sign_def)

lemma to_double_range_nonneg:
  "0 \<le> v \<Longrightarrow> to_double_range v = PInf \<or> (\<exists>x\<ge>0. to_double_range v = Fin x)"
  using double_limit_large by (simp add: to_double_range_def)

lemma parseInt_nonneg:
  assumes "CHR ''-'' \<notin> set t"
  shows "parseInt t = NaN \<or> parseInt t = PInf \<or> (\<exists>x\<ge>0. parseInt t = Fin x)"
proof -
  have "CHR ''-'' \<notin> set (dropWhile is_ws t)"
    using assms set_dropWhileD by fastforce
  then have n: "fst (split_sign (dropWhile is_ws t)) = False"
    by (rule split_sign_nonneg)
  obtain u where u: "split_sign (dropWhile is_ws t) = (False, u)"
    using n by (metis prod.collapse)
  show ?thesis
    using to_double_range_nonneg
    by (simp add: parseInt_def u Let_def split: option.splits)
qed

lemma trim_subset: "set (trim s) \<subseteq> set s"
proof -
  have "set (trim s) \<subseteq> set (rev (dropWhile is_ws s))"
    unfolding trim_def using set_dropWhileD by fastforce
  also have "\<dots> \<subseteq> set s" using set_dropWhileD by fastforce
  finally show ?thesis .
qed

lemma convertInstallsToNumber_nonneg:
  assumes "CHR ''-'' \<notin> set s"
  shows "convertInstallsToNumber ts (PStr s) = PInf \<or> (\<exists>x\<ge>0. convertInstallsToNumber ts (PStr s) = Fin x)"
proof (cases "s = []")
  case True
  then show ?thesis by (simp add: convertInstallsToNumber_def)
next
  case False
  let ?t = "trim (filter (\<lambda>c. c \<noteq> CHR '','' \<and> c \<noteq> CHR ''+'') s)"
  have "set ?t \<subseteq> set s" using trim_subset by fastforce
  then have "CHR ''-'' \<notin> set ?t" using assms by blast
  from parseInt_nonneg [OF this]
  have "or_zero (parseInt ?t) = PInf \<or> (\<exists>x\<ge>0. or_zero (parseInt ?t) = Fin x)"
    by (auto simp: or_zero_def truthy_num_def)
  then show ?thesis using False by (simp add: convertInstallsToNumber_def)
qed

text \<open>
  C6, as amended. For every input string \<open>s\<close> the number convertInstallsToNumber
  returns is never NaN, and it is at least 0 when \<open>s\<close> holds no minus sign. When it is
  a finite number that is at least 0, it satisfies \<open>min \<le> n < max\<close> for exactly one
  entry of INSTALL\_RANGES and categorizeInstalls returns that entry's label, never
  \<open>'Unknown'\<close>. When it is negative or infinite, no entry matches and categorizeInstalls
  returns \<open>'Unknown'\<close>.
\<close>

theorem categorizeInstalls_roundtrip:
  "convertInstallsToNumber ts (PStr s) \<noteq> NaN \<and>
   (CHR ''-'' \<notin> set s \<longrightarrow> js_ge (convertInstallsToNumber ts (PStr s)) (Fin 0)) \<and>
   (if js_ge (convertInstallsToNumber ts (PStr s)) (Fin 0) \<and> convertInstallsToNumber ts (PStr s) \<noteq> PInf
    then (\<exists>!r. r \<in> set INSTALL_RANGES \<and> in_range (convertInstallsToNumber ts (PStr s)) r) \<and>
         (\<exists>r \<in> set INSTALL_RANGES. in_range (convertInstallsToNumber ts (PStr s)) r \<and>
            categorizeInstalls (convertInstallsToNumber ts (PStr s)) = label r) \<and>
         categorizeInstalls (convertInstallsToNumber ts (PStr s)) \<noteq> ''Unknown''
    else (\<forall>r \<in> set INSTALL_RANGES. \<not> in_range (convertInstallsToNumber ts (PStr s)) r) \<and>
         categorizeInstalls (convertInstallsToNumber ts (PStr s)) = ''Unknown'')"
proof -
  let ?n = "convertInstallsToNumber ts (PStr s)"
  have a: "?n \<noteq> NaN" by (rule convertInstallsToNumber_not_NaN)
  have b: "js_ge ?n (Fin 0)" if "CHR ''-'' \<notin> set s"
    using convertInstallsToNumber_nonneg [OF that, of ts]
    by (auto simp: js_ge_def js_le_def)
  have c: "(if js_ge ?n (Fin 0) \<and> ?n \<noteq> PInf
    then (\<exists>!r. r \<in> set INSTALL_RANGES \<and> in_range ?n r) \<and>
         (\<exists>r \<in> set INSTALL_RANGES. in_range ?n r \<and> categorizeInstalls ?n = label r) \<and>
         categorizeInstalls ?n \<noteq> ''Unknown''
    else (\<forall>r \<in> set INSTALL_RANGES. \<not> in_range ?n r) \<and> categorizeInstalls ?n = ''Unknown'')"
  proof (cases ?n)
    case (Fin x)
    show ?thesis
    proof (cases "0 \<le> x")
      case True
      then have "js_ge (Fin x) (Fin 0)" by (auto simp: js_ge_def js_le_def)
      then show ?thesis using one_bucket [OF True] Fin by simp
    next
      case False
      then have "\<not> js_ge (Fin x) (Fin 0)" by (auto simp: js_ge_def js_le_def)
      moreover have "x < 0" using False by simp
      ultimately show ?thesis using no_range_neg neg_unknown Fin by simp
    qed
  next
    case PInf
    then show ?thesis using no_range_inf inf_unknown by simp
  next
    case NInf
    have "\<not> js_ge NInf (Fin 0)" by (simp add: js_ge_def js_le_def)
    then show ?thesis using NInf no_range_inf inf_unknown by simp
  next
    case NaN
    then show ?thesis using a by simp
  qed
  show ?thesis using a b c by blast
qed

theorem categorizeInstalls_roundtrip_witness:
  "convertInstallsToNumber (\<lambda>x. []) (PStr ''10,000+'') = Fin 10000 \<and>
   categorizeInstalls (convertInstallsToNumber (\<lambda>x. []) (PStr ''10,000+'')) = ''10K-100K'' \<and>
   (\<exists>!r. r \<in> set INSTALL_RANGES \<and> in_range (convertInstallsToNumber (\<lambda>x. []) (PStr ''10,000+'')) r)"
proof -
  have v: "convertInstallsToNumber (\<lambda>x. []) (PStr ''10,000+'') = Fin 10000"
    by (simp add: convertInstallsToNumber_def trim_def parse_defs)
  have g: "js_ge (Fin 10000) (Fin 0)" by (simp add: js_ge_def js_le_def)
  have c: "categorizeInstalls (Fin 10000) = ''10K-100K''"
    by (simp add: categorizeInstalls_def INSTALL_RANGES_def in_range_def js_ge_def js_le_def)
  show ?thesis
    using categorizeInstalls_roundtrip [of "\<lambda>x. []" "''10,000+''"] g c unfolding v by simp
qed

text \<open>
  C6 as stated fails: the string \<open>-5\<close> is parsed to the integer -5, which lies in no
  range of the table, and categorizeInstalls falls back to \<open>'Unknown'\<close>. (The argument is
  a string, so the conversion of numbers to text, here a dummy, is never called.)
\<close>

theorem categorizeInstalls_negative_counterexample:
  "convertInstallsToNumber (\<lambda>x. []) (PStr ''-5'') = Fin (- 5) \<and>
   categorizeInstalls (convertInstallsToNumber (\<lambda>x. []) (PStr ''-5'')) = ''Unknown''"
  by (simp add: categorizeInstalls_def convertInstallsToNumber_def trim_def parse_defs
      INSTALL_RANGES_def in_range_def js_ge_def js_le_def)



subsection \<open>Prices\<close>

lemma convertPriceToNumber_string:
  "convertPriceToNumber ts (PStr s) =
     (if s = [] \<or> s = ''Free'' \<or> s = ''0'' then Fin 0
      else or_zero (parseFloat (remove1 (CHR ''$'') s)))"
  by (simp add: convertPriceToNumber_def)

lemma remove1_leading:
  assumes "CHR ''$'' \<notin> set (tl s)"
  shows "remove1 (CHR ''$'') s = strip_leading_currency s"
proof (cases s)
  case Nil
  then show ?thesis by (simp add: strip_leading_currency_def)
next
  case (Cons c r)
  then have "CHR ''$'' \<notin> set r" using assms by simp
  then have "remove1 (CHR ''$'') r = r" by (rule remove1_idem)
  then show ?thesis using Cons by (simp add: strip_leading_currency_def)
qed

text \<open>
  C5, as amended. convertPriceToNumber returns 0 for \<open>Free\<close>, \<open>0\<close> and the empty string,
  and 4.99 for \<open>$4.99\<close>. For every other string it removes the first \<open>$\<close> of the text,
  wherever it stands, parses the result with parseFloat and returns 0 when that gives NaN
  (or 0). On every string in which \<open>$\<close> occurs at most as the first character this is
  the specification's reading: strip the leading symbol, parse the remainder.
\<close>

theorem convertPriceToNumber_amended:
  "convertPriceToNumber ts (PStr ''Free'') = Fin 0 \<and>
   convertPriceToNumber ts (PStr ''0'') = Fin 0 \<and>
   convertPriceToNumber ts (PStr []) = Fin 0 \<and>
   convertPriceToNumber ts (PStr ''$4.99'') = Fin 4.99 \<and>
   convertPriceToNumber ts (PStr s) =
     (if s = [] \<or> s = ''Free'' \<or> s = ''0'' then Fin 0
      else or_zero (parseFloat (remove1 (CHR ''$'') s))) \<and>
   (CHR ''$'' \<notin> set (tl s) \<longrightarrow> convertPriceToNumber ts (PStr s) = priceToNumber_spec s)"
proof -
  have 1: "convertPriceToNumber ts (PStr ''Free'') = Fin 0"
    and 2: "convertPriceToNumber ts (PStr ''0'') = Fin 0"
    and 3: "convertPriceToNumber ts (PStr []) = Fin 0"
    by (simp_all add: convertPriceToNumber_def)
  have 4: "convertPriceToNumber ts (PStr ''$4.99'') = Fin 4.99"
    by (simp add: convertPriceToNumber_def parse_defs)
  have 5: "convertPriceToNumber ts (PStr s) = priceToNumber_spec s" if "CHR ''$'' \<notin> set (tl s)"
    unfolding convertPriceToNumber_string priceToNumber_spec_def remove1_leading [OF that] ..
  show ?thesis using 1 2 3 4 5 convertPriceToNumber_string by (intro conjI impI)
qed

theorem convertPriceToNumber_amended_witness:
  "convertPriceToNumber (\<lambda>x. []) (PStr ''$12.50'') = priceToNumber_spec ''$12.50'' \<and>
   convertPriceToNumber (\<lambda>x. []) (PStr ''$12.50'') = Fin 12.5"
proof -
  have h: "CHR ''$'' \<notin> set (tl ''$12.50'')" by simp
  have "convertPriceToNumber (\<lambda>x. []) (PStr ''$12.50'') = priceToNumber_spec ''$12.50''"
    using convertPriceToNumber_amended [of "\<lambda>x. []" "''$12.50''"] h by blast
  moreover have "priceToNumber_spec ''$12.50'' = Fin 12.5"
    by (simp add: priceToNumber_spec_def strip_leading_currency_def parse_defs)
  ultimately show ?thesis by simp
qed

text \<open>
  C5 as stated fails: \<open>1$5\<close> has no leading currency symbol, so the specification's
  reading parses \<open>1$5\<close> to 1; the code removes the inner \<open>$\<close> and parses \<open>15\<close>.
\<close>

theorem convertPriceToNumber_inner_symbol_counterexample:
  "convertPriceToNumber (\<lambda>x. []) (PStr ''1$5'') = Fin 15 \<and> priceToNumber_spec ''1$5'' = Fin 1"
  by (simp add: convertPriceToNumber_def priceToNumber_spec_def strip_leading_currency_def parse_defs)


subsection \<open>Sizes\<close>

lemma takeWhile_snoc_stop: "\<not> P c \<Longrightarrow> takeWhile P (xs @ [c]) = takeWhile P xs"
  by (induction xs) simp_all

lemma dropWhile_snoc_stop: "\<not> P c \<Longrightarrow> dropWhile P (xs @ [c]) = dropWhile P xs @ [c]"
  by (induction xs) simp_all

lemma list_all_takeWhile_id: "list_all P xs \<Longrightarrow> takeWhile P xs = xs \<and> dropWhile P xs = []"
  by (induction xs) simp_all

text \<open>The shape of a numeric string: sign, integer digits, and the fraction if any.\<close>

lemma numeric_string_shape:
  assumes "numeric_string v"
  obtains neg u ip fp where
    "split_sign v = (neg, u)" "takeWhile is_digit u = ip"
    "dropWhile is_digit u = [] \<and> fp = [] \<or> dropWhile is_digit u = CHR ''.'' # fp"
    "list_all is_digit fp" "ip \<noteq> [] \<or> fp \<noteq> []" "u = ip @ dropWhile is_digit u"
proof -
  obtain neg u where su: "split_sign v = (neg, u)" by (cases "split_sign v")
  let ?r1 = "dropWhile is_digit u"
  show thesis
  proof (cases ?r1)
    case Nil
    with assms su have "takeWhile is_digit u \<noteq> []"
      by (simp add: numeric_string_def)
    with Nil su show ?thesis
      by (intro that [of neg u "takeWhile is_digit u" "[]"]) simp_all
  next
    case (Cons c fp)
    with assms su have "c = CHR ''.''" "list_all is_digit fp" "takeWhile is_digit u \<noteq> [] \<or> fp \<noteq> []"
      by (simp_all add: numeric_string_def)
    moreover have "u = takeWhile is_digit u @ dropWhile is_digit u" by simp
    ultimately show ?thesis using Cons su
      by (intro that [of neg u "takeWhile is_digit u" fp]) simp_all
  qed
qed

lemma is_digit_cases:
  assumes "is_digit c"
  obtains "c = CHR ''0''" | "c = CHR ''1''" | "c = CHR ''2''" | "c = CHR ''3''" | "c = CHR ''4''"
    | "c = CHR ''5''" | "c = CHR ''6''" | "c = CHR ''7''" | "c = CHR ''8''" | "c = CHR ''9''"
  using assms unfolding is_digit_def by simp blast

lemma unit_not_digit:
  assumes "c \<in> set ''kmgKMG''"
  shows "\<not> is_digit c" "c \<noteq> CHR ''.''" "c \<noteq> CHR ''e''" "c \<noteq> CHR ''E''"
  using assms unfolding is_digit_def by (simp; elim disjE; simp)+

lemma digit_not_special:
  assumes "is_digit c"
  shows "\<not> is_ws c" "c \<noteq> CHR ''-''" "c \<noteq> CHR ''+''" "c \<noteq> CHR ''I''"
    "c \<noteq> CHR ''k''" "c \<noteq> CHR ''m''" "c \<noteq> CHR ''g''" "lower_char c = c"
  using assms by (elim is_digit_cases; simp add: is_ws_def lower_char_def)+

lemma split_sign_snoc:
  assumes "split_sign v = (neg, u)" "u \<noteq> []"
  shows "split_sign (v @ [c]) = (neg, u @ [c])"
proof (cases v)
  case Nil
  then show ?thesis using assms by (simp add: split_sign_def)
next
  case (Cons a r)
  then show ?thesis using assms by (simp add: split_sign_def split: if_splits)
qed

lemma split_sign_cases:
  assumes "split_sign v = (neg, u)"
  shows "v = u \<or> v = CHR ''-'' # u \<or> v = CHR ''+'' # u"
proof (cases v)
  case Nil
  then show ?thesis using assms by (simp add: split_sign_def)
next
  case (Cons a r)
  then show ?thesis using assms by (simp add: split_sign_def split: if_splits)
qed


lemma exponent_part_none:
  assumes "t = [] \<or> (\<exists>c. t = [c] \<and> c \<noteq> CHR ''e'' \<and> c \<noteq> CHR ''E'')"
  shows "exponent_part t = 0"
  using assms by (auto simp: exponent_part_def)

lemma parseFloat_numeric_suffix:
  assumes ns: "numeric_string v"
    and t: "t = [] \<or> (\<exists>c. t = [c] \<and> \<not> is_digit c \<and> c \<noteq> CHR ''.'' \<and> c \<noteq> CHR ''e'' \<and> c \<noteq> CHR ''E'')"
  shows "parseFloat (v @ t) =
    to_double (if fst (split_sign v)
         then - (real (digits_val (takeWhile is_digit (snd (split_sign v)) @ tl (dropWhile is_digit (snd (split_sign v)))))
                  / 10 ^ length (tl (dropWhile is_digit (snd (split_sign v)))))
         else real (digits_val (takeWhile is_digit (snd (split_sign v)) @ tl (dropWhile is_digit (snd (split_sign v)))))
                  / 10 ^ length (tl (dropWhile is_digit (snd (split_sign v)))))"
proof -
  from ns obtain neg u ip fp where
    su: "split_sign v = (neg, u)" and ip: "takeWhile is_digit u = ip"
    and r1: "dropWhile is_digit u = [] \<and> fp = [] \<or> dropWhile is_digit u = CHR ''.'' # fp"
    and fp: "list_all is_digit fp" and ne: "ip \<noteq> [] \<or> fp \<noteq> []"
    and u: "u = ip @ dropWhile is_digit u"
    by (rule numeric_string_shape)
  have une: "u \<noteq> []" using ne r1 u by auto
  have hdu: "is_digit (hd u) \<or> hd u = CHR ''.''"
  proof (cases ip)
    case Nil
    then have "u = CHR ''.'' # fp" using u r1 ne by auto
    then show ?thesis by simp
  next
    case (Cons d ds)
    then have "hd u = d" using u by (metis hd_append2 list.sel(1) list.distinct(1))
    moreover have "is_digit d" using Cons ip by (metis list.set_intros(1) set_takeWhileD)
    ultimately show ?thesis by simp
  qed
  have hdu_ws: "\<not> is_ws (hd u)" and hdu_I: "hd u \<noteq> CHR ''I''"
    using hdu digit_not_special by (auto simp: is_ws_def)
  have hdv: "\<not> is_ws (hd v)" and vne: "v \<noteq> []"
    using split_sign_cases [OF su] hdu_ws une by (auto simp: is_ws_def)
  have dw: "dropWhile is_ws (v @ t) = v @ t"
    using hdv vne by (cases v) simp_all
  have ss: "split_sign (v @ t) = (neg, u @ t)"
  proof (cases "t = []")
    case True
    then show ?thesis using su by simp
  next
    case False
    then obtain c where "t = [c]" using t by blast
    then show ?thesis using split_sign_snoc [OF su une] by simp
  qed
  have notinf: "take 8 (u @ t) \<noteq> ''Infinity''"
  proof
    assume "take 8 (u @ t) = ''Infinity''"
    then have "hd (take 8 (u @ t)) = CHR ''I''" by simp
    then have "hd u = CHR ''I''" using une by (cases u) simp_all
    then show False using hdu_I by simp
  qed
  have tstop: "takeWhile is_digit (x @ t) = takeWhile is_digit x"
    "dropWhile is_digit (x @ t) = dropWhile is_digit x @ t" for x
    using t takeWhile_snoc_stop [of is_digit _ x] dropWhile_snoc_stop [of is_digit _ x] by auto
  have ex: "exponent_part t = 0"
    using t by (intro exponent_part_none) blast
  have fpid: "takeWhile is_digit fp = fp" "dropWhile is_digit fp = []"
    using list_all_takeWhile_id [OF fp] by simp_all
  have tl1: "tl (dropWhile is_digit u) = fp"
    using r1
  proof (elim disjE conjE)
    assume a: "dropWhile is_digit u = []" "fp = []"
    show ?thesis unfolding a by simp
  next
    assume a: "dropWhile is_digit u = CHR ''.'' # fp"
    show ?thesis unfolding a by simp
  qed
  have frac: "(case dropWhile is_digit u @ t of
                 [] \<Rightarrow> ([], [])
               | c # r \<Rightarrow> if c = CHR ''.'' then (takeWhile is_digit r, dropWhile is_digit r)
                         else ([], dropWhile is_digit u @ t)) = (fp, t)"
    using r1
  proof (elim disjE conjE)
    assume a: "dropWhile is_digit u = []" "fp = []"
    show ?thesis unfolding a using t by auto
  next
    assume a: "dropWhile is_digit u = CHR ''.'' # fp"
    show ?thesis unfolding a using tstop [of fp] fpid by simp
  qed
  have nn: "(ip = [] \<and> fp = []) = False" using ne by simp
  show ?thesis
    unfolding parseFloat_def dw ss
    using notinf
    by (simp add: Let_def tstop ip frac ex scale10_def su tl1 nn)
qed


lemma numeric_string_chars:
  assumes "numeric_string v" "ch \<in> set v"
  shows "is_digit ch \<or> ch = CHR ''.'' \<or> ch = CHR ''-'' \<or> ch = CHR ''+''"
proof -
  from assms(1) obtain neg u ip fp where
    su: "split_sign v = (neg, u)" and ip: "takeWhile is_digit u = ip"
    and r1: "dropWhile is_digit u = [] \<and> fp = [] \<or> dropWhile is_digit u = CHR ''.'' # fp"
    and fp: "list_all is_digit fp" and u: "u = ip @ dropWhile is_digit u"
    by (rule numeric_string_shape)
  have ipd: "\<forall>d \<in> set ip. is_digit d" using ip set_takeWhileD by fastforce
  have fpd: "\<forall>d \<in> set fp. is_digit d" using fp by (simp add: list_all_iff)
  have "set (dropWhile is_digit u) \<subseteq> insert (CHR ''.'') (set fp)"
    using r1
  proof (elim disjE conjE)
    assume a: "dropWhile is_digit u = []" "fp = []"
    show ?thesis unfolding a by simp
  next
    assume a: "dropWhile is_digit u = CHR ''.'' # fp"
    show ?thesis unfolding a by simp
  qed
  then have "set u \<subseteq> set ip \<union> insert (CHR ''.'') (set fp)"
    using u by (metis Un_mono order_refl set_append)
  then have uc: "\<forall>d \<in> set u. is_digit d \<or> d = CHR ''.''"
    using ipd fpd by blast
  from split_sign_cases [OF su] have "ch \<in> set u \<or> ch = CHR ''-'' \<or> ch = CHR ''+''"
    using assms(2) by auto
  then show ?thesis using uc by blast
qed

lemma numeric_string_lower:
  assumes "numeric_string v"
  shows "toLowerCase v = v"
    and "CHR ''k'' \<notin> set v" and "CHR ''m'' \<notin> set v" and "CHR ''g'' \<notin> set v"
proof -
  have c: "is_digit ch \<or> ch = CHR ''.'' \<or> ch = CHR ''-'' \<or> ch = CHR ''+''" if "ch \<in> set v" for ch
    using numeric_string_chars [OF assms that] .
  have "lower_char ch = ch" if "ch \<in> set v" for ch
    using c [OF that] digit_not_special(8) by (elim disjE) (simp_all add: lower_char_def)
  then show "toLowerCase v = v"
    unfolding toLowerCase_def by (simp add: map_idI)
  show "CHR ''k'' \<notin> set v" using c digit_not_special(5) by fastforce
  show "CHR ''m'' \<notin> set v" using c digit_not_special(6) by fastforce
  show "CHR ''g'' \<notin> set v" using c digit_not_special(7) by fastforce
qed

text \<open>A unit letter after a numeric string does not change what parseFloat reads.\<close>

lemma parseFloat_unit_suffix:
  assumes "numeric_string v" "c \<in> set ''kmg''"
  shows "parseFloat (v @ [c]) = parseFloat v"
proof -
  have "c \<in> set ''kmgKMG''" using assms(2) by auto
  from unit_not_digit [OF this]
  have "parseFloat (v @ [c]) =
    to_double (if fst (split_sign v)
         then - (real (digits_val (takeWhile is_digit (snd (split_sign v)) @ tl (dropWhile is_digit (snd (split_sign v)))))
                  / 10 ^ length (tl (dropWhile is_digit (snd (split_sign v)))))
         else real (digits_val (takeWhile is_digit (snd (split_sign v)) @ tl (dropWhile is_digit (snd (split_sign v)))))
                  / 10 ^ length (tl (dropWhile is_digit (snd (split_sign v)))))"
    by (intro parseFloat_numeric_suffix [OF assms(1)]) simp
  then show ?thesis
    using parseFloat_numeric_suffix [OF assms(1), of "[]"] by simp
qed

lemma parseFloat_numeric:
  assumes "numeric_string v"
  obtains x where "parseFloat v = to_double x"
  using parseFloat_numeric_suffix [OF assms, of "[]"] by simp

text \<open>
  Multiplying a double by factors of at least 1 one after the other is multiplying it by
  their product: no intermediate result leaves the range unless the final one does.
\<close>

lemma to_double_cases:
  obtains "to_double x = PInf" "real_of_int double_limit \<le> x"
  | "to_double x = NInf" "x \<le> - real_of_int double_limit"
  | "to_double x = Fin 0" "\<bar>x\<bar> \<le> double_tiny"
  | "to_double x = Fin x" "double_tiny < \<bar>x\<bar>" "x < real_of_int double_limit"
      "- real_of_int double_limit < x"
  using real_double_limit_large unfolding to_double_def
  by (cases "real_of_int double_limit \<le> x"; cases "x \<le> - real_of_int double_limit";
      cases "\<bar>x\<bar> \<le> double_tiny") simp_all

lemma js_mul_Inf:
  "0 < b \<Longrightarrow> js_mul PInf (Fin b) = PInf" "0 < b \<Longrightarrow> js_mul NInf (Fin b) = NInf"
  by simp_all

lemma js_mul_scale:
  assumes "1 \<le> a" "1 \<le> b"
  shows "js_mul (js_mul (to_double x) (Fin a)) (Fin b) = js_mul (to_double x) (Fin (a * b))"
proof -
  have a0: "0 < a" and b0: "0 < b" and ab0: "0 < a * b" using assms by simp_all
  have "(0::real) < 10 ^ 30" by simp
  then have L: "0 < real_of_int double_limit"
    using real_double_limit_large by (rule less_trans)
  show ?thesis
  proof (cases x rule: to_double_cases)
    case 1
    show ?thesis
      unfolding 1(1) js_mul_Inf(1) [OF a0] js_mul_Inf(1) [OF b0] js_mul_Inf(1) [OF ab0] ..
  next
    case 2
    show ?thesis
      unfolding 2(1) js_mul_Inf(2) [OF a0] js_mul_Inf(2) [OF b0] js_mul_Inf(2) [OF ab0] ..
  next
    case 3
    then show ?thesis by simp
  next
    case 4
    have xa: "\<bar>x\<bar> \<le> \<bar>x * a\<bar>"
      using assms(1) by (simp add: abs_mult mult_le_cancel_left1)
    show ?thesis
    proof (cases "x * a" rule: to_double_cases)
      case 1
      have pos: "0 < x * a" using 1(2) L by linarith
      have "x * a * 1 \<le> x * a * b"
        using assms(2) pos by (intro mult_left_mono) simp_all
      then have "x * a \<le> x * a * b" by simp
      then have "real_of_int double_limit \<le> x * (a * b)" using 1(2) by (simp add: mult.assoc)
      then have "to_double (x * (a * b)) = PInf" by (simp add: to_double_def)
      then show ?thesis using 4(1) 1(1) js_mul_Inf(1) [OF b0] by simp
    next
      case 2
      have neg: "x * a < 0" using 2(2) L by linarith
      have "x * a * 1 \<ge> x * a * b"
        using assms(2) neg by (intro mult_left_mono_neg) simp_all
      then have "x * a * b \<le> x * a" by simp
      then have le: "x * (a * b) \<le> - real_of_int double_limit" using 2(2) by (simp add: mult.assoc)
      then have "\<not> real_of_int double_limit \<le> x * (a * b)" using L by linarith
      then have "to_double (x * (a * b)) = NInf" using le by (simp add: to_double_def)
      then show ?thesis using 4(1) 2(1) js_mul_Inf(2) [OF b0] by simp
    next
      case 3
      then show ?thesis using xa 4(2) by linarith
    next
      case 4
      then show ?thesis using \<open>to_double x = Fin x\<close> by (simp add: mult.assoc)
    qed
  qed
qed

lemma js_mul_1024_twice:
  "js_mul (js_mul (to_double x) (Fin 1024)) (Fin 1024) = js_mul (to_double x) (Fin (1024 ^ 2))"
  using js_mul_scale [of 1024 1024 x] by simp

lemma js_mul_1024_thrice:
  "js_mul (js_mul (js_mul (to_double x) (Fin 1024)) (Fin 1024)) (Fin 1024) =
     js_mul (to_double x) (Fin (1024 ^ 3))"
  using js_mul_scale [of 1024 1024 x] js_mul_scale [of "1024 * 1024" 1024 x] by simp

lemma convertSizeToBytes_unit:
  assumes ns: "numeric_string v" and c: "c \<in> set ''kmgKMG''"
  shows "convertSizeToBytes ts (PStr (v @ [c])) =
     Some (js_mul (parseFloat v)
             (Fin (if lower_char c = CHR ''k'' then 1024
                   else if lower_char c = CHR ''m'' then 1024 ^ 2
                   else 1024 ^ 3)))"
proof -
  have lc: "lower_char c \<in> set ''kmg''"
    using c by (simp add: lower_char_def) (elim disjE; simp)
  obtain x where x: "parseFloat v = to_double x"
    using parseFloat_numeric [OF ns] by blast
  have pl: "parseFloat (v @ [lower_char c]) = to_double x"
    using parseFloat_unit_suffix [OF ns lc] x by simp
  have low: "toLowerCase (v @ [c]) = v @ [lower_char c]"
    using numeric_string_lower(1) [OF ns] by (simp add: toLowerCase_def)
  have nv: "v @ [c] \<noteq> ''Varies with device''"
  proof
    assume "v @ [c] = ''Varies with device''"
    then have "last (v @ [c]) = last ''Varies with device''" by simp
    then have "c = CHR ''e''" by simp
    then show False using c by simp
  qed
  note nl = numeric_string_lower(2-4) [OF ns]
  from lc consider "lower_char c = CHR ''k''" | "lower_char c = CHR ''m''" | "lower_char c = CHR ''g''"
    by auto
  then show ?thesis
  proof cases
    case 1
    show ?thesis
      unfolding convertSizeToBytes_def x using nv pl
      by (simp add: Let_def low 1)
  next
    case 2
    show ?thesis
      unfolding convertSizeToBytes_def x using nv pl nl js_mul_1024_twice [of x]
      by (simp add: Let_def low 2)
  next
    case 3
    show ?thesis
      unfolding convertSizeToBytes_def x using nv pl nl js_mul_1024_thrice [of x]
      by (simp add: Let_def low 3)
  qed
qed

text \<open>
  C8. For every numeric string \<open>v\<close>, parseFloat reads a number from \<open>v\<close> (never NaN) and
  convertSizeToBytes returns that number multiplied by 1024 for \<open>v\<close> followed by \<open>k\<close> or
  \<open>K\<close>, by \<open>1024^2\<close> for \<open>m\<close> or \<open>M\<close>, and by \<open>1024^3\<close> for \<open>g\<close> or \<open>G\<close>; the
  product is that of JavaScript numbers, an infinity when it leaves the range of doubles.
  It returns \<open>null\<close> for \<open>Varies with device\<close> and for an empty input (the empty string,
  \<open>null\<close>, \<open>undefined\<close>).
\<close>

theorem convertSizeToBytes_units:
  assumes "numeric_string v"
  shows "parseFloat v \<noteq> NaN \<and>
     convertSizeToBytes ts (PStr (v @ ''k'')) = Some (js_mul (parseFloat v) (Fin 1024)) \<and>
     convertSizeToBytes ts (PStr (v @ ''K'')) = Some (js_mul (parseFloat v) (Fin 1024)) \<and>
     convertSizeToBytes ts (PStr (v @ ''m'')) = Some (js_mul (parseFloat v) (Fin (1024 ^ 2))) \<and>
     convertSizeToBytes ts (PStr (v @ ''M'')) = Some (js_mul (parseFloat v) (Fin (1024 ^ 2))) \<and>
     convertSizeToBytes ts (PStr (v @ ''g'')) = Some (js_mul (parseFloat v) (Fin (1024 ^ 3))) \<and>
     convertSizeToBytes ts (PStr (v @ ''G'')) = Some (js_mul (parseFloat v) (Fin (1024 ^ 3))) \<and>
     convertSizeToBytes ts (PStr ''Varies with device'') = None \<and>
     convertSizeToBytes ts (PStr []) = None \<and>
     convertSizeToBytes ts PNull = None \<and>
     convertSizeToBytes ts PUndefined = None"
proof -
  obtain x where x: "parseFloat v = to_double x"
    using parseFloat_numeric [OF assms] by blast
  have p: "parseFloat v \<noteq> NaN" unfolding x by (rule to_double_not_NaN)
  note u = convertSizeToBytes_unit [OF assms, of _ ts]
  have k: "convertSizeToBytes ts (PStr (v @ ''k'')) = Some (js_mul (parseFloat v) (Fin 1024))"
    using u [of "CHR ''k''"] by (simp add: lower_char_def)
  have K: "convertSizeToBytes ts (PStr (v @ ''K'')) = Some (js_mul (parseFloat v) (Fin 1024))"
    using u [of "CHR ''K''"] by (simp add: lower_char_def)
  have m: "convertSizeToBytes ts (PStr (v @ ''m'')) = Some (js_mul (parseFloat v) (Fin (1024 ^ 2)))"
    using u [of "CHR ''m''"] by (simp add: lower_char_def)
  have M: "convertSizeToBytes ts (PStr (v @ ''M'')) = Some (js_mul (parseFloat v) (Fin (1024 ^ 2)))"
    using u [of "CHR ''M''"] by (simp add: lower_char_def)
  have g: "convertSizeToBytes ts (PStr (v @ ''g'')) = Some (js_mul (parseFloat v) (Fin (1024 ^ 3)))"
    using u [of "CHR ''g''"] by (simp add: lower_char_def)
  have G: "convertSizeToBytes ts (PStr (v @ ''G'')) = Some (js_mul (parseFloat v) (Fin (1024 ^ 3)))"
    using u [of "CHR ''G''"] by (simp add: lower_char_def)
  have n: "convertSizeToBytes ts (PStr ''Varies with device'') = None"
    "convertSizeToBytes ts (PStr []) = None"
    "convertSizeToBytes ts PNull = None"
    "convertSizeToBytes ts PUndefined = None"
    by (simp_all add: convertSizeToBytes_def)
  show ?thesis using p k K m M g G n by (intro conjI)
qed

theorem convertSizeToBytes_units_witness:
  "convertSizeToBytes (\<lambda>x. []) (PStr ''8.7M'') = Some (Fin (8.7 * 1024 * 1024)) \<and>
   convertSizeToBytes (\<lambda>x. []) (PStr ''14k'') = Some (Fin (14 * 1024))"
proof -
  have a: "numeric_string ''8.7''" and b: "numeric_string ''14''"
    by (simp_all add: numeric_string_def parse_defs)
  have pa: "parseFloat ''8.7'' = Fin 8.7" and pb: "parseFloat ''14'' = Fin 14"
    by (simp_all add: parse_defs)
  from convertSizeToBytes_units [OF a, of "\<lambda>x. []"]
  have 1: "convertSizeToBytes (\<lambda>x. []) (PStr ''8.7M'') = Some (Fin (8.7 * 1024 * 1024))"
    unfolding pa by simp
  from convertSizeToBytes_units [OF b, of "\<lambda>x. []"]
  have 2: "convertSizeToBytes (\<lambda>x. []) (PStr ''14k'') = Some (Fin (14 * 1024))"
    unfolding pb by simp
  show ?thesis using 1 2 by (rule conjI)
qed


subsection \<open>Filtering\<close>

lemma filter_step_truthy:
  "(case opt of Some c \<Rightarrow> if active c then filter (Q c) xs else xs | None \<Rightarrow> xs) =
     filter (\<lambda>a. \<forall>c. opt = Some c \<and> active c \<longrightarrow> Q c a) xs"
  by (cases opt) simp_all

lemma filter_step_present:
  "(case opt of Some c \<Rightarrow> filter (Q c) xs | None \<Rightarrow> xs) =
     filter (\<lambda>a. \<forall>c. opt = Some c \<longrightarrow> Q c a) xs"
  by (cases opt) simp_all

lemma filterApps_filter: "filterApps apps fs = filter (matches_truthy fs) apps"
proof -
  have "filterApps apps fs =
    filter (\<lambda>a. \<forall>p. f_isPaid fs = Some p \<longrightarrow> isPaid a = p)
     (filter (\<lambda>a. \<forall>c. f_contentRating fs = Some c \<and> c \<noteq> [] \<longrightarrow> contentRating a = Some c)
      (filter (\<lambda>a. \<forall>t. f_type fs = Some t \<and> t \<noteq> [] \<longrightarrow> type a = Some t)
       (filter (\<lambda>a. \<forall>m. f_minRating fs = Some m \<and> truthy_num m \<longrightarrow> js_ge (rating_number (rating a)) m)
        (filter (\<lambda>a. \<forall>c. f_category fs = Some c \<and> c \<noteq> [] \<longrightarrow> category a = c) apps))))"
    unfolding filterApps_def Let_def filter_step_truthy filter_step_present ..
  also have "\<dots> = filter (matches_truthy fs) apps"
    unfolding filter_filter matches_truthy_def by (rule filter_cong) (rule refl, simp only: conj_assoc)
  finally show ?thesis .
qed

lemma matches_agree:
  assumes "f_category fs \<noteq> Some []" "f_type fs \<noteq> Some []" "f_contentRating fs \<noteq> Some []"
    "\<forall>m. f_minRating fs = Some m \<longrightarrow> truthy_num m"
  shows "matches_truthy fs a = matches_present fs a"
    using assms unfolding matches_truthy_def matches_present_def
  by (cases "f_category fs"; cases "f_minRating fs"; cases "f_type fs";
      cases "f_contentRating fs"; simp)

text \<open>
  C7, as amended. For every list of App records and every filter configuration, filterApps
  is idempotent, and it keeps (in input order) exactly the records that satisfy the
  conjunction of the criteria whose value is truthy (a non-empty string for category, type
  and contentRating; a number other than 0 and NaN for minRating) and of isPaid when it is
  present; an absent key imposes no constraint, and neither does a key holding the empty
  string, 0 or NaN. When every present criterion is truthy, this is the conjunction of all
  present criteria. The function is a pure function of its arguments: the source copies the
  array first (\<open>[...apps]\<close>) and \<open>filter\<close> builds new arrays, so the input is never written.
\<close>

theorem filterApps_amended:
  "filterApps (filterApps apps fs) fs = filterApps apps fs \<and>
   filterApps apps fs = filter (matches_truthy fs) apps \<and>
   (f_category fs \<noteq> Some [] \<and> f_type fs \<noteq> Some [] \<and> f_contentRating fs \<noteq> Some [] \<and>
    (\<forall>m. f_minRating fs = Some m \<longrightarrow> truthy_num m)
    \<longrightarrow> filterApps apps fs = filter (matches_present fs) apps)"
proof (intro conjI impI)
  show "filterApps (filterApps apps fs) fs = filterApps apps fs"
    unfolding filterApps_filter by simp
  show "filterApps apps fs = filter (matches_truthy fs) apps"
    by (rule filterApps_filter)
  assume "f_category fs \<noteq> Some [] \<and> f_type fs \<noteq> Some [] \<and> f_contentRating fs \<noteq> Some [] \<and>
    (\<forall>m. f_minRating fs = Some m \<longrightarrow> truthy_num m)"
  then have "matches_truthy fs = matches_present fs"
    using matches_agree by (intro ext) blast
  then show "filterApps apps fs = filter (matches_present fs) apps"
    unfolding filterApps_filter by simp
qed

lemma sample_fields:
  "category sample_app = ''GAME''" "type sample_app = Some ''Free''"
  "rating sample_app = Some (Fin 4.8)" "contentRating sample_app = Some ''Everyone''"
  "isPaid sample_app = False"
  by (simp_all add: sample_app_def)

theorem filterApps_amended_witness:
  "filterApps [sample_app, sample_app \<lparr> category := ''TOOLS'' \<rparr>]
     \<lparr> f_category = Some ''GAME'', f_minRating = Some (Fin 4), f_type = None,
       f_contentRating = None, f_isPaid = Some False \<rparr> = [sample_app]"
proof -
  let ?fs = "\<lparr> f_category = Some ''GAME'', f_minRating = Some (Fin 4), f_type = None,
       f_contentRating = None, f_isPaid = Some False \<rparr>"
  have p: "matches_present ?fs sample_app"
    by (simp add: matches_present_def sample_fields rating_number_def js_ge_def js_le_def)
  have q: "\<not> matches_present ?fs (sample_app \<lparr> category := ''TOOLS'' \<rparr>)"
    by (simp add: matches_present_def sample_fields)
  have "filterApps [sample_app, sample_app \<lparr> category := ''TOOLS'' \<rparr>] ?fs =
    filter (matches_present ?fs) [sample_app, sample_app \<lparr> category := ''TOOLS'' \<rparr>]"
  proof -
    have h: "f_category ?fs \<noteq> Some [] \<and> f_type ?fs \<noteq> Some [] \<and> f_contentRating ?fs \<noteq> Some [] \<and>
      (\<forall>m. f_minRating ?fs = Some m \<longrightarrow> truthy_num m)"
      by (simp add: truthy_num_def)
    show ?thesis
      by (rule mp [OF filterApps_amended [THEN conjunct2, THEN conjunct2] h])
  qed
  then show ?thesis using p q by simp
qed

text \<open>
  C7 as stated fails: with \<open>type: ''\<close> in the configuration the key is present, and the
  only records that match it are those whose type is the empty string; the code skips a
  falsy criterion and returns the record of type \<open>Free\<close>.
\<close>

theorem filterApps_empty_criterion_counterexample:
  "filterApps [sample_app]
     \<lparr> f_category = None, f_minRating = None, f_type = Some [],
       f_contentRating = None, f_isPaid = None \<rparr> = [sample_app] \<and>
   filter (matches_present
     \<lparr> f_category = None, f_minRating = None, f_type = Some [],
       f_contentRating = None, f_isPaid = None \<rparr>) [sample_app] = []"
  by (simp add: filterApps_def matches_present_def sample_fields)



subsection \<open>Order on numbers\<close>

lemma js_less_irrefl: "\<not> js_less x x"
  by (cases x) simp_all

lemma js_less_trans: "js_less x y \<Longrightarrow> js_less y z \<Longrightarrow> js_less x z"
  by (cases x; cases y; cases z; simp)

lemma js_less_total: "x \<noteq> NaN \<Longrightarrow> y \<noteq> NaN \<Longrightarrow> js_less x y \<or> x = y \<or> js_less y x"
  by (cases x; cases y; simp) linarith

lemma js_less_not_NaN: "js_less x y \<Longrightarrow> x \<noteq> NaN \<and> y \<noteq> NaN"
  by (cases x; cases y; simp)

lemma js_le_refl: "x \<noteq> NaN \<Longrightarrow> js_le x x"
  by (simp add: js_le_def)

lemma js_le_trans: "js_le x y \<Longrightarrow> js_le y z \<Longrightarrow> js_le x z"
  unfolding js_le_def using js_less_trans by blast

lemma js_le_less_trans: "js_le x y \<Longrightarrow> js_less y z \<Longrightarrow> js_less x z"
  unfolding js_le_def using js_less_trans by blast

lemma js_less_le_trans: "js_less x y \<Longrightarrow> js_le y z \<Longrightarrow> js_less x z"
  unfolding js_le_def using js_less_trans by blast

lemma not_js_gt_le: "x \<noteq> NaN \<Longrightarrow> y \<noteq> NaN \<Longrightarrow> \<not> js_gt x y \<Longrightarrow> js_le x y"
  unfolding js_gt_def js_le_def using js_less_total by blast

lemma js_less_le: "js_less x y \<Longrightarrow> js_le x y"
  by (simp add: js_le_def)

lemma js_less_neq: "js_less x y \<Longrightarrow> x \<noteq> y"
  using js_less_irrefl by blast

subsection \<open>The maximum of a group\<close>

lemma maxBy_fold_Some:
  assumes "\<forall>a \<in> set xs. reviews a \<noteq> NaN" "reviews r \<noteq> NaN"
  shows "\<exists>m. foldl maxBy_step (Some (reviews r, r)) xs = Some (reviews m, m) \<and>
             m \<in> set (r # xs) \<and>
             (\<forall>a \<in> set (r # xs). js_le (reviews a) (reviews m)) \<and>
             find (\<lambda>a. reviews a = reviews m) (r # xs) = Some m"
  using assms
proof (induction xs arbitrary: r)
  case Nil
  then show ?case by (simp add: js_le_def)
next
  case (Cons x xs)
  have xn: "reviews x \<noteq> NaN" and xsn: "\<forall>a \<in> set xs. reviews a \<noteq> NaN"
    using Cons.prems(1) by simp_all
  show ?case
  proof (cases "js_gt (reviews x) (reviews r)")
    case True
    from Cons.IH [OF xsn xn] obtain m where
      m: "foldl maxBy_step (Some (reviews x, x)) xs = Some (reviews m, m)"
         "m \<in> set (x # xs)" "\<forall>a \<in> set (x # xs). js_le (reviews a) (reviews m)"
         "find (\<lambda>a. reviews a = reviews m) (x # xs) = Some m"
      by blast
    have rx: "js_less (reviews r) (reviews x)" using True by (simp add: js_gt_def)
    have xm: "js_le (reviews x) (reviews m)" using m(3) by simp
    have rm: "js_less (reviews r) (reviews m)"
      using rx xm by (rule js_less_le_trans)
    have 1: "foldl maxBy_step (Some (reviews r, r)) (x # xs) = Some (reviews m, m)"
      using True m(1) by simp
    have 2: "m \<in> set (r # x # xs)" using m(2) by simp
    have 3: "\<forall>a \<in> set (r # x # xs). js_le (reviews a) (reviews m)"
      using m(3) rm js_less_le by simp
    have 4: "find (\<lambda>a. reviews a = reviews m) (r # x # xs) = Some m"
      using m(4) js_less_neq [OF rm] by simp
    show ?thesis using 1 2 3 4 by blast
  next
    case False
    from Cons.IH [OF xsn Cons.prems(2)] obtain m where
      m: "foldl maxBy_step (Some (reviews r, r)) xs = Some (reviews m, m)"
         "m \<in> set (r # xs)" "\<forall>a \<in> set (r # xs). js_le (reviews a) (reviews m)"
         "find (\<lambda>a. reviews a = reviews m) (r # xs) = Some m"
      by blast
    have xr: "js_le (reviews x) (reviews r)"
      using False xn Cons.prems(2) by (intro not_js_gt_le)
    have rm: "js_le (reviews r) (reviews m)" using m(3) by simp
    have xm: "js_le (reviews x) (reviews m)" using xr rm by (rule js_le_trans)
    have 1: "foldl maxBy_step (Some (reviews r, r)) (x # xs) = Some (reviews m, m)"
      using False m(1) by simp
    have 2: "m \<in> set (r # x # xs)" using m(2) by auto
    have 3: "\<forall>a \<in> set (r # x # xs). js_le (reviews a) (reviews m)"
      using m(3) xm by simp
    have 4: "find (\<lambda>a. reviews a = reviews m) (r # x # xs) = Some m"
    proof (cases "reviews r = reviews m")
      case True
      then show ?thesis using m(4) by simp
    next
      case neq: False
      then have "js_less (reviews r) (reviews m)" using rm by (simp add: js_le_def)
      then have "js_less (reviews x) (reviews m)" using xr js_le_less_trans by blast
      then have "reviews x \<noteq> reviews m" by (rule js_less_neq)
      then show ?thesis using m(4) neq by simp
    qed
    show ?thesis using 1 2 3 4 by blast
  qed
qed

lemma maxBy_reviews_first_max:
  assumes "g \<noteq> []" "\<forall>a \<in> set g. reviews a \<noteq> NaN"
  shows "\<exists>m. maxBy_reviews g = Some m \<and> m \<in> set g \<and>
             (\<forall>a \<in> set g. js_le (reviews a) (reviews m)) \<and>
             find (\<lambda>a. reviews a = reviews m) g = Some m"
proof -
  obtain r xs where g: "g = r # xs" using assms(1) by (cases g) auto
  have rn: "reviews r \<noteq> NaN" and xsn: "\<forall>a \<in> set xs. reviews a \<noteq> NaN"
    using assms(2) g by simp_all
  from maxBy_fold_Some [OF xsn rn] obtain m where
    m: "foldl maxBy_step (Some (reviews r, r)) xs = Some (reviews m, m)"
       "m \<in> set (r # xs)" "\<forall>a \<in> set (r # xs). js_le (reviews a) (reviews m)"
       "find (\<lambda>a. reviews a = reviews m) (r # xs) = Some m"
    by blast
  have "maxBy_reviews g = Some m"
    unfolding maxBy_reviews_def g using rn m(1) by simp
  then show ?thesis using m(2-4) g by blast
qed

lemma keep_first_max:
  assumes "g \<noteq> []" "\<forall>a \<in> set g. reviews a \<noteq> NaN"
  shows "\<exists>m. dedup_group g = Some m \<and> m \<in> set g \<and>
             (\<forall>a \<in> set g. js_le (reviews a) (reviews m)) \<and>
             find (\<lambda>a. reviews a = reviews m) g = Some m"
proof (cases g)
  case Nil
  then show ?thesis using assms(1) by simp
next
  case (Cons a r)
  show ?thesis
  proof (cases r)
    case Nil
    then show ?thesis using Cons assms(2) by (simp add: js_le_def dedup_group_def)
  next
    case (Cons b r')
    then have "dedup_group g = maxBy_reviews g"
      using \<open>g = a # r\<close> by (simp add: dedup_group_def)
    then show ?thesis using maxBy_reviews_first_max [OF assms] by simp
  qed
qed


subsection \<open>Grouping by name\<close>

lemma groupBy_add_keys:
  "map fst (groupBy_add G a) =
     (if app a \<in> set (map fst G) then map fst G else map fst G @ [app a])"
  by (induction G a rule: groupBy_add.induct) auto

lemma groupBy_add_map_of:
  "map_of (groupBy_add G a) =
     (map_of G) (app a \<mapsto> (case map_of G (app a) of None \<Rightarrow> [a] | Some g \<Rightarrow> g @ [a]))"
  by (induction G a rule: groupBy_add.induct) (auto simp: fun_eq_iff)

lemma grouped_step:
  assumes "grouped G xs"
  shows "grouped (groupBy_add G a) (xs @ [a])"
proof -
  have d: "distinct (map fst G)"
    and m: "\<And>k. map_of G k =
        (if k \<in> app ` set xs then Some (filter (\<lambda>b. app b = k) xs) else None)"
    using assms by (simp_all add: grouped_def)
  have d': "distinct (map fst (groupBy_add G a))"
    unfolding groupBy_add_keys using d by simp
  have m': "map_of (groupBy_add G a) k =
        (if k \<in> app ` set (xs @ [a]) then Some (filter (\<lambda>b. app b = k) (xs @ [a])) else None)" for k
  proof (cases "k = app a")
    case True
    show ?thesis
    proof (cases "app a \<in> app ` set xs")
      case in_xs: True
      then show ?thesis using True m [of "app a"] by (simp add: groupBy_add_map_of)
    next
      case not_in: False
      then have "\<forall>b \<in> set xs. app b \<noteq> app a"
        by (fastforce simp: image_iff)
      then have "filter (\<lambda>b. app b = app a) xs = []"
        by (simp add: filter_empty_conv)
      then show ?thesis using True not_in m [of "app a"] by (simp add: groupBy_add_map_of)
    qed
  next
    case False
    then show ?thesis using m [of k] by (auto simp: groupBy_add_map_of)
  qed
  show ?thesis unfolding grouped_def using d' m' by blast
qed

lemma grouped_groupBy_app: "grouped (groupBy_app apps) apps"
  unfolding groupBy_app_def
proof (induction apps rule: rev_induct)
  case Nil
  show ?case by (simp add: grouped_def)
next
  case (snoc a xs)
  then show ?case using grouped_step by simp
qed

lemma grouped_entry:
  assumes "grouped G xs" "(k, g) \<in> set G"
  shows "k \<in> app ` set xs \<and> g = filter (\<lambda>b. app b = k) xs"
proof -
  have d: "distinct (map fst G)" using assms(1) by (simp add: grouped_def)
  have s: "map_of G k = Some g" using d assms(2) by simp
  have m: "map_of G k =
        (if k \<in> app ` set xs then Some (filter (\<lambda>b. app b = k) xs) else None)"
    using assms(1) by (simp add: grouped_def)
  show ?thesis
  proof (cases "k \<in> app ` set xs")
    case True
    then show ?thesis using s m by simp
  next
    case False
    then show ?thesis using s m by simp
  qed
qed

lemma grouped_keys:
  assumes "grouped G xs"
  shows "set (map fst G) = app ` set xs"
proof -
  have "k \<in> set (map fst G) \<longleftrightarrow> k \<in> app ` set xs" for k
  proof -
    have "k \<in> set (map fst G) \<longleftrightarrow> map_of G k \<noteq> None"
      by (simp add: map_of_eq_None_iff)
    also have "\<dots> \<longleftrightarrow> k \<in> app ` set xs"
      using assms unfolding grouped_def by simp
    finally show ?thesis .
  qed
  then show ?thesis by blast
qed

subsection \<open>The order of Object.values\<close>

lemma set_own_entries: "set (own_entries kvs) = set kvs"
  unfolding own_entries_def by auto

lemma distinct_keys_own_entries:
  assumes "distinct (map fst kvs)"
  shows "distinct (map fst (own_entries kvs))"
proof -
  let ?A = "filter (\<lambda>kv. is_array_index (fst kv)) kvs"
  let ?B = "filter (\<lambda>kv. \<not> is_array_index (fst kv)) kvs"
  let ?S = "sort_key (\<lambda>kv. digits_val (fst kv)) ?A"
  have dk: "distinct kvs" and inj: "inj_on fst (set kvs)"
    using assms by (simp_all add: distinct_map)
  have "distinct ?S" using dk by simp
  moreover have "inj_on fst (set ?S)" using inj by (auto intro: inj_on_subset)
  ultimately have 1: "distinct (map fst ?S)" by (simp add: distinct_map)
  have "distinct ?B" using dk by simp
  moreover have "inj_on fst (set ?B)" using inj by (auto intro: inj_on_subset)
  ultimately have 2: "distinct (map fst ?B)" by (simp add: distinct_map)
  have 3: "set (map fst ?S) \<inter> set (map fst ?B) = {}" by auto
  show ?thesis unfolding own_entries_def using 1 2 3 by simp
qed

lemma find_filter: "find P (filter Q xs) = find (\<lambda>x. Q x \<and> P x) xs"
  by (induction xs) simp_all


subsection \<open>Deduplication\<close>

text \<open>
  C2. For every list of App records (whose review counts are numbers, not NaN),
  removeDuplicateApps returns a list of records, none \<open>undefined\<close>, with exactly one
  record per distinct name: the names of the result are distinct and are the names of the
  input. The record returned for a name is a record of the input whose review count is the
  maximum among the records sharing the name, and it is the first record of the input with
  that name and that count.
\<close>

theorem removeDuplicateApps_keeps_first_max:
  assumes "\<forall>a \<in> set apps. reviews a \<noteq> NaN"
  shows "\<exists>rs. removeDuplicateApps apps = map Some rs \<and>
           distinct (map app rs) \<and>
           set (map app rs) = set (map app apps) \<and>
           (\<forall>r \<in> set rs.
              r \<in> set apps \<and>
              (\<forall>a \<in> set apps. app a = app r \<longrightarrow> js_le (reviews a) (reviews r)) \<and>
              find (\<lambda>a. app a = app r \<and> reviews a = reviews r) apps = Some r)"
proof -
  let ?G = "groupBy_app apps"
  let ?E = "own_entries ?G"
  let ?rs = "map (\<lambda>e. the (dedup_group (snd e))) ?E"
  have G: "grouped ?G apps" by (rule grouped_groupBy_app)
  have entry: "k \<in> app ` set apps \<and> g = filter (\<lambda>b. app b = k) apps"
    if "(k, g) \<in> set ?E" for k g
    using that grouped_entry [OF G] by (simp add: set_own_entries)
  have kept: "\<exists>m. dedup_group g = Some m \<and> m \<in> set apps \<and> app m = k \<and>
        (\<forall>a \<in> set apps. app a = k \<longrightarrow> js_le (reviews a) (reviews m)) \<and>
        find (\<lambda>a. app a = k \<and> reviews a = reviews m) apps = Some m"
    if e: "(k, g) \<in> set ?E" for k g
  proof -
    have k: "k \<in> app ` set apps" and g: "g = filter (\<lambda>b. app b = k) apps"
      using entry [OF e] by simp_all
    have gne: "g \<noteq> []"
      using k unfolding g by (auto simp: filter_empty_conv)
    have gn: "\<forall>a \<in> set g. reviews a \<noteq> NaN"
      using assms unfolding g by simp
    from keep_first_max [OF gne gn] obtain m where
      m: "dedup_group g = Some m" "m \<in> set g" "\<forall>a \<in> set g. js_le (reviews a) (reviews m)"
         "find (\<lambda>a. reviews a = reviews m) g = Some m"
      by blast
    have 1: "m \<in> set apps" and 2: "app m = k" using m(2) unfolding g by simp_all
    have 3: "\<forall>a \<in> set apps. app a = k \<longrightarrow> js_le (reviews a) (reviews m)"
      using m(3) unfolding g by simp
    have 4: "find (\<lambda>a. app a = k \<and> reviews a = reviews m) apps = Some m"
      using m(4) unfolding g find_filter .
    show ?thesis using m(1) 1 2 3 4 by blast
  qed
  have a: "removeDuplicateApps apps = map Some ?rs"
  proof -
    have "dedup_group (snd e) = Some (the (dedup_group (snd e)))" if "e \<in> set ?E" for e
    proof -
      obtain k g where kg: "e = (k, g)" by (cases e)
      from kept [of k g] that kg obtain m where "dedup_group g = Some m" by blast
      then show ?thesis using kg by simp
    qed
    then show ?thesis
      unfolding removeDuplicateApps_def object_values_def by (simp add: comp_def)
  qed
  have names: "map app ?rs = map fst ?E"
  proof -
    have "app (the (dedup_group (snd e))) = fst e" if "e \<in> set ?E" for e
    proof -
      obtain k g where kg: "e = (k, g)" by (cases e)
      from kept [of k g] that kg obtain m where "dedup_group g = Some m" "app m = k" by blast
      then show ?thesis using kg by simp
    qed
    then show ?thesis by (simp add: comp_def)
  qed
  have dG: "distinct (map fst ?G)" using G by (simp add: grouped_def)
  have b: "distinct (map app ?rs)"
    unfolding names using dG by (rule distinct_keys_own_entries)
  have "set (map fst ?E) = set (map fst ?G)"
    using set_own_entries [of ?G] by (metis set_map)
  then have c: "set (map app ?rs) = set (map app apps)"
    unfolding names using grouped_keys [OF G] by simp
  have d: "r \<in> set apps \<and>
        (\<forall>a \<in> set apps. app a = app r \<longrightarrow> js_le (reviews a) (reviews r)) \<and>
        find (\<lambda>a. app a = app r \<and> reviews a = reviews r) apps = Some r"
    if "r \<in> set ?rs" for r
  proof -
    from that obtain e where e: "e \<in> set ?E" "r = the (dedup_group (snd e))" by auto
    obtain k g where kg: "e = (k, g)" by (cases e)
    from kept [of k g] e(1) kg obtain m where
      m: "dedup_group g = Some m" "m \<in> set apps" "app m = k"
         "\<forall>a \<in> set apps. app a = k \<longrightarrow> js_le (reviews a) (reviews m)"
         "find (\<lambda>a. app a = k \<and> reviews a = reviews m) apps = Some m"
      by blast
    have "r = m" using e(2) kg m(1) by simp
    then show ?thesis using m(2-5) by simp
  qed
  show ?thesis using a b c d by blast
qed

lemma sample_more_fields:
  "app sample_app = ''X''" "reviews sample_app = Fin 100"
  by (simp_all add: sample_app_def)

theorem removeDuplicateApps_witness:
  "removeDuplicateApps
     [sample_app \<lparr> reviews := Fin 50 \<rparr>, sample_app,
      sample_app \<lparr> app := ''2048'', reviews := Fin 10 \<rparr>, sample_app \<lparr> category := ''TOOLS'' \<rparr>]
   = [Some (sample_app \<lparr> app := ''2048'', reviews := Fin 10 \<rparr>), Some sample_app] \<and>
   (\<exists>rs. removeDuplicateApps
     [sample_app \<lparr> reviews := Fin 50 \<rparr>, sample_app,
      sample_app \<lparr> app := ''2048'', reviews := Fin 10 \<rparr>, sample_app \<lparr> category := ''TOOLS'' \<rparr>]
     = map Some rs \<and> distinct (map app rs))"
proof -
  let ?apps = "[sample_app \<lparr> reviews := Fin 50 \<rparr>, sample_app,
      sample_app \<lparr> app := ''2048'', reviews := Fin 10 \<rparr>, sample_app \<lparr> category := ''TOOLS'' \<rparr>]"
  have h: "\<forall>a \<in> set ?apps. reviews a \<noteq> NaN"
    by (simp add: sample_more_fields)
  have e: "removeDuplicateApps ?apps
      = [Some (sample_app \<lparr> app := ''2048'', reviews := Fin 10 \<rparr>), Some sample_app]"
    by (simp add: removeDuplicateApps_def object_values_def own_entries_def groupBy_app_def
        sample_more_fields is_array_index_def is_digit_def digits_val_def digit_of_def
        maxBy_reviews_def js_gt_def dedup_group_def)
  from removeDuplicateApps_keeps_first_max [OF h]
  have "\<exists>rs. removeDuplicateApps ?apps = map Some rs \<and> distinct (map app rs)"
    by blast
  then show ?thesis using e by (intro conjI)
qed



subsection \<open>Percentages over an empty set\<close>

lemma percentage_of_none: "percentage 0 0 = NaN"
  by (simp add: percentage_def)

lemma bind_err_Inr: "bind_err (Inr v) f = f v"
  by (simp add: bind_err_def)

lemma calculateBasicStats_Nil: "calculateBasicStats [] = Inr zero_stats"
  by (simp add: calculateBasicStats_def cleanNumbers_def)

lemma generateOverviewAnalytics_Nil:
  "ratingsPercentage (generateOverviewAnalytics []) = NaN"
  "paidAppsPercentage (generateOverviewAnalytics []) = NaN"
  "popularAppsPercentage (generateOverviewAnalytics []) = NaN"
  by (simp_all add: generateOverviewAnalytics_def Let_def percentage_of_none)

lemma generateSentimentAnalytics_Nil:
  "map_sum id sentimentPercentages (generateSentimentAnalytics []) =
     Inr \<lparr> positive = NaN, negative = NaN, neutral = NaN \<rparr>"
  by (simp add: generateSentimentAnalytics_def Let_def percentage_of_none
      calculateBasicStats_Nil bind_err_Inr)

lemma unrated_sample: "\<not> rated (sample_app \<lparr> rating := None \<rparr>)"
  "rating (sample_app \<lparr> rating := None \<rparr>) = None"
  by (simp_all add: rated_def)

lemma generateRatingAnalytics_unrated:
  "map_sum id highRatedPercentage (generateRatingAnalytics [sample_app \<lparr> rating := None \<rparr>]) = Inr NaN"
  by (simp add: generateRatingAnalytics_def Let_def unrated_sample rating_number_def
      analyzeRatingDistribution_def identifyOutliers_def calculateBasicStats_Nil bind_err_Inr
      js_ge_def js_le_def percentage_of_none)

text \<open>
  C1 fails on the code. On an empty app list generateOverviewAnalytics computes
  \<open>(0 / 0) * 100\<close> for ratingsPercentage, paidAppsPercentage and popularAppsPercentage, which
  is NaN, not 0; generateSentimentAnalytics on an empty review list returns
  sentimentPercentages with positive, negative and neutral all NaN; and
  generateRatingAnalytics on a list with no rated app (the empty list, or one app whose
  rating is \<open>null\<close>) returns highRatedPercentage NaN. All three return without throwing.
\<close>

theorem empty_percentages_are_NaN:
  "ratingsPercentage (generateOverviewAnalytics []) = NaN \<and>
   paidAppsPercentage (generateOverviewAnalytics []) = NaN \<and>
   popularAppsPercentage (generateOverviewAnalytics []) = NaN \<and>
   map_sum id sentimentPercentages (generateSentimentAnalytics []) =
     Inr \<lparr> positive = NaN, negative = NaN, neutral = NaN \<rparr> \<and>
   map_sum id highRatedPercentage (generateRatingAnalytics []) = Inr NaN \<and>
   map_sum id highRatedPercentage
     (generateRatingAnalytics [sample_app \<lparr> rating := None \<rparr>]) = Inr NaN"
proof -
  have "map_sum id highRatedPercentage (generateRatingAnalytics []) = Inr NaN"
    by (simp add: generateRatingAnalytics_def Let_def
      analyzeRatingDistribution_def identifyOutliers_def calculateBasicStats_Nil bind_err_Inr
      percentage_of_none sort_by_def)
  then show ?thesis
    using generateOverviewAnalytics_Nil generateSentimentAnalytics_Nil
      generateRatingAnalytics_unrated by (intro conjI)
qed


subsection \<open>Cleaning raw rows\<close>

lemma opt_trim_text: "text_cell v \<Longrightarrow> \<exists>s. opt_trim v = Inr s"
  by (cases v) (simp_all add: text_cell_def)

lemma opt_lower_text: "text_cell v \<Longrightarrow> \<exists>s. opt_lower v = Inr s"
  by (cases v) (simp_all add: text_cell_def)

lemma text_row_cell:
  assumes "text_row r"
  shows "text_cell (cell r k)"
proof (cases "map_of r k")
  case None
  then show ?thesis by (simp add: cell_def text_cell_def)
next
  case (Some v)
  then have "(k, v) \<in> set r" by (rule map_of_SomeD)
  then have "text_cell v" using assms by (auto simp: text_row_def list_all_iff)
  then show ?thesis using Some by (simp add: cell_def)
qed

lemma bind_err_total:
  assumes "\<exists>v. m = Inr v" "\<And>v. \<exists>w. f v = Inr w"
  shows "\<exists>w. bind_err m f = Inr w"
  using assms by (auto simp: bind_err_def)

lemma process_app_row_text:
  assumes "text_row r"
  shows "\<exists>m. process_app_row ts r = Inr m"
  unfolding process_app_row_def
  by (intro bind_err_total opt_trim_text text_row_cell [OF assms])
     (simp add: Let_def split: option.split)

lemma process_review_row_text:
  assumes "text_row r"
  shows "\<exists>m. process_review_row ts r = Inr m"
  unfolding process_review_row_def
  by (intro bind_err_total opt_trim_text opt_lower_text text_row_cell [OF assms]) simp

lemma map_err_total:
  assumes "\<forall>x \<in> set xs. \<exists>y. f x = Inr y"
  shows "\<exists>ys. map_err f xs = Inr ys"
  using assms
proof (induction xs)
  case Nil
  show ?case by simp
next
  case (Cons x xs)
  then obtain y ys where "f x = Inr y" "map_err f xs = Inr ys" by auto
  then show ?case by (simp add: bind_err_def)
qed

text \<open>
  Rows of text. For every array of rows whose cells are strings, \<open>null\<close> or absent,
  processAppsData and processReviewsData return normally: each row is dropped or
  normalized, whatever its texts are.
\<close>

theorem process_text_rows_return:
  assumes "list_all text_row rows"
  shows "(\<exists>apps. processAppsData ts (RowArray rows) = Inr apps) \<and>
         (\<exists>revs. processReviewsData ts (RowArray rows) = Inr revs)"
proof
  have t: "\<forall>r \<in> set rows. text_row r" using assms by (simp add: list_all_iff)
  have "\<exists>ys. map_err (process_app_row ts)
      (filter (\<lambda>r. truthy (cell r ''App'') \<and> truthy (cell r ''Category'')) rows) = Inr ys"
    using t process_app_row_text by (intro map_err_total) simp
  then show "\<exists>apps. processAppsData ts (RowArray rows) = Inr apps"
    by (auto simp: processAppsData_def bind_err_def)
  have "\<exists>ys. map_err (process_review_row ts)
      (filter (\<lambda>r. truthy (cell r ''App'') \<and> truthy (cell r ''Sentiment'') \<and>
                          cell r ''Sentiment'' \<noteq> PStr ''nan'') rows) = Inr ys"
    using t process_review_row_text by (intro map_err_total) simp
  then show "\<exists>revs. processReviewsData ts (RowArray rows) = Inr revs"
    by (simp add: processReviewsData_def)
qed

theorem process_text_rows_return_witness:
  "(\<exists>apps. processAppsData (\<lambda>x. [])
      (RowArray [[(''App'', PStr ''X''), (''Category'', PStr ''GAME''), (''Rating'', PStr ''abc'')]])
      = Inr apps)"
proof -
  have "list_all text_row [[(''App'', PStr ''X''), (''Category'', PStr ''GAME''), (''Rating'', PStr ''abc'')]]"
    by (simp add: text_row_def text_cell_def)
  from process_text_rows_return [OF this] show ?thesis by (rule conjunct1)
qed

text \<open>
  C10 holds in its first half and fails on the code in its second. Both functions throw
  the Error \<open>Invalid data format: expected array\<close> on an argument that is not an array.
  On an array they do not always return: a row in which a trimmed column holds a number,
  as the CSV loader's dynamic typing produces for a version \<open>1.0\<close> or a review text
  \<open>10\<close>, makes \<open>?.trim()\<close> throw a TypeError, which ends the whole call.
\<close>

theorem process_data_number_cell_throws:
  "processAppsData ts NotArray = Inl (Error ''Invalid data format: expected array'') \<and>
   processReviewsData ts NotArray = Inl (Error ''Invalid data format: expected array'') \<and>
   processAppsData ts
     (RowArray [[(''App'', PStr ''Photo Editor''), (''Category'', PStr ''ART_AND_DESIGN''),
                 (''Current Ver'', PNum (Fin 1))]]) = Inl TypeError \<and>
   processReviewsData ts
     (RowArray [[(''App'', PStr ''X''), (''Translated_Review'', PNum (Fin 10)),
                 (''Sentiment'', PStr ''Positive'')]]) = Inl TypeError"
  by (simp add: processAppsData_def processReviewsData_def process_app_row_def
      process_review_row_def cell_def bind_err_def)



subsection \<open>calculateBasicStats on a non-empty cleaned set\<close>

text \<open>
  The library calls that come before \<open>math.var\<close> in the object literal return on a
  non-empty array of numbers without NaN; \<open>math.var\<close> is then called, and throws.
\<close>

lemma math_median_total: "xs \<noteq> [] \<Longrightarrow> \<exists>m. math_median xs = Inr m"
  by (simp add: math_median_def Let_def)

lemma math_mode_total: "xs \<noteq> [] \<Longrightarrow> NaN \<notin> set xs \<Longrightarrow> \<exists>ms. math_mode xs = Inr ms"
  by (simp add: math_mode_def)

lemma math_std_total: "xs \<noteq> [] \<Longrightarrow> \<exists>sd. math_std xs = Inr sd"
  by (cases xs) (simp_all add: math_std_def math_variance_def bind_err_def Let_def)

lemma cleanNumbers_no_NaN: "NaN \<notin> set (cleanNumbers values)"
proof
  assume "NaN \<in> set (cleanNumbers values)"
  then obtain v where "is_clean v" "to_number v = NaN"
    by (auto simp: cleanNumbers_def)
  then show False by (simp add: is_clean_def isNaN_def)
qed

lemma calculateBasicStats_nonempty:
  assumes "cleanNumbers values \<noteq> []"
  shows "calculateBasicStats values = Inl TypeError"
proof -
  obtain med where med: "math_median (cleanNumbers values) = Inr med"
    using math_median_total [OF assms] by blast
  obtain ms where ms: "math_mode (cleanNumbers values) = Inr ms"
    using math_mode_total [OF assms cleanNumbers_no_NaN] by blast
  obtain sd where sd: "math_std (cleanNumbers values) = Inr sd"
    using math_std_total [OF assms] by blast
  show ?thesis
    unfolding calculateBasicStats_def Let_def med ms sd bind_err_Inr math_var_def
    using assms by (simp add: bind_err_def)
qed

text \<open>
  C4 fails on the code. On \<open>[1, 3, 5]\<close> and on \<open>[null, 7]\<close>, arrays with a non-empty
  cleaned set, calculateBasicStats does not return statistics: the call of \<open>math.var\<close>, a
  name that mathjs 11.11.0 does not export, throws a TypeError.
\<close>

theorem calculateBasicStats_var_throws:
  "calculateBasicStats [Num (Fin 1), Num (Fin 3), Num (Fin 5)] = Inl TypeError \<and>
   calculateBasicStats [Null, Num (Fin 7)] = Inl TypeError"
proof -
  have 1: "cleanNumbers [Num (Fin 1), Num (Fin 3), Num (Fin 5)] \<noteq> []"
    and 2: "cleanNumbers [Null, Num (Fin 7)] \<noteq> []"
    by (simp_all add: cleanNumbers_def is_clean_def isNaN_def)
  show ?thesis
    using calculateBasicStats_nonempty [OF 1] calculateBasicStats_nonempty [OF 2] by (rule conjI)
qed

text \<open>
  For every array, calculateBasicStats returns the zero struct when the cleaned set is
  empty, and throws a TypeError (from \<open>math.var\<close>) when it is not.
\<close>

theorem calculateBasicStats_returns_iff_empty:
  "calculateBasicStats values =
     (if cleanNumbers values = [] then Inr zero_stats else Inl TypeError)"
  using calculateBasicStats_no_clean [of "values"] calculateBasicStats_nonempty [of "values"]
  by (cases "cleanNumbers values = []") simp_all

theorem calculateBasicStats_returns_iff_empty_witness:
  "calculateBasicStats [Num (Fin 4.5), Undefined, Num (Fin 4.5)] = Inl TypeError \<and>
   calculateBasicStats [Undefined] = Inr zero_stats"
proof -
  have 1: "cleanNumbers [Num (Fin 4.5), Undefined, Num (Fin 4.5)] \<noteq> []"
    and 2: "cleanNumbers [Undefined] = []"
    by (simp_all add: cleanNumbers_def is_clean_def isNaN_def)
  have a: "calculateBasicStats [Num (Fin 4.5), Undefined, Num (Fin 4.5)] = Inl TypeError"
    using calculateBasicStats_returns_iff_empty [of "[Num (Fin 4.5), Undefined, Num (Fin 4.5)]"] 1
    by simp
  have b: "calculateBasicStats [Undefined] = Inr zero_stats"
    using calculateBasicStats_returns_iff_empty [of "[Undefined]"] 2 by simp
  show ?thesis using a b by (rule conjI)
qed


subsection \<open>Correlation\<close>

text \<open>
  The two series \<open>x = [c, c]\<close> with \<open>c = 1 + 2^-40\<close>, a double, and \<open>y = [8193, 1]\<close>, in
  the arithmetic of doubles. The products \<open>c * 8193\<close> and the sum of the two products are
  ties, rounded to even, and \<open>n * sumXY = 16388 + 2^-26\<close>, while \<open>sumX * sumY\<close> is exactly
  \<open>16388 + 2^-26 + 2^-38\<close>: the numerator is \<open>- 2^-38\<close>. The squares \<open>c * c\<close> and
  \<open>sumX * sumX\<close> are rounded to \<open>1 + 2^-39\<close> and \<open>4 + 2^-37\<close>, and \<open>n * sumXSquare\<close> is
  \<open>4 + 2^-37\<close> as well: the radicand is 0.
\<close>

lemma corr_numerator_example:
  "corr_numerator round_to_double [Fin (1 + 1 / 2 ^ 40), Fin (1 + 1 / 2 ^ 40)] [Fin 8193, Fin 1]
     = Fin (- (1 / 2 ^ 38))"
  by code_simp

lemma corr_radicand_example:
  "corr_radicand round_to_double [Fin (1 + 1 / 2 ^ 40), Fin (1 + 1 / 2 ^ 40)] [Fin 8193, Fin 1]
     = Fin 0"
  by code_simp

lemma round_to_double_0: "round_to_double 0 = 0"
  by (simp add: round_to_double_def)

text \<open>
  C3 fails on the code. The series \<open>[c, c]\<close> with \<open>c = 1 + 2^-40\<close> (the double
  1.0000000000009095) is constant, and calculateCorrelation of it and \<open>[8193, 1]\<close> is
  not 0: mathjs divides the numerator \<open>- 2^-38\<close> by the denominator 0, and the result
  \<open>-Infinity\<close> is not NaN, so it is returned as it is.
\<close>

theorem calculateCorrelation_constant_series_infinite:
  "calculateCorrelation round_to_double
     [Num (Fin (1 + 1 / 2 ^ 40)), Num (Fin (1 + 1 / 2 ^ 40))] [Num (Fin 8193), Num (Fin 1)] = NInf \<and>
   round_to_double (1 + 1 / 2 ^ 40) = 1 + 1 / 2 ^ 40"
proof -
  have p: "clean_pairs [Num (Fin (1 + 1 / 2 ^ 40)), Num (Fin (1 + 1 / 2 ^ 40))] [Num (Fin 8193), Num (Fin 1)]
      = [(Num (Fin (1 + 1 / 2 ^ 40)), Num (Fin 8193)), (Num (Fin (1 + 1 / 2 ^ 40)), Num (Fin 1))]"
    by (simp add: clean_pairs_def is_clean_def isNaN_def)
  have m: "math_corr round_to_double [Fin (1 + 1 / 2 ^ 40), Fin (1 + 1 / 2 ^ 40)] [Fin 8193, Fin 1]
      = Inr NInf"
    unfolding math_corr_def Let_def corr_numerator_example corr_radicand_example
    by (simp add: rounded_def round_to_double_0)
  have 1: "calculateCorrelation round_to_double
     [Num (Fin (1 + 1 / 2 ^ 40)), Num (Fin (1 + 1 / 2 ^ 40))] [Num (Fin 8193), Num (Fin 1)] = NInf"
    unfolding calculateCorrelation_def Let_def p using m by (simp add: isNaN_def)
  have 2: "round_to_double (1 + 1 / 2 ^ 40) = 1 + 1 / 2 ^ 40"
    by code_simp
  show ?thesis using 1 2 by (rule conjI)
qed

text \<open>
  The input passes both guards of the function (equal lengths, two clean pairs), and the
  value returned is neither 0 nor NaN.
\<close>

theorem calculateCorrelation_constant_series_infinite_witness:
  "length (clean_pairs [Num (Fin (1 + 1 / 2 ^ 40)), Num (Fin (1 + 1 / 2 ^ 40))]
     [Num (Fin 8193), Num (Fin 1)]) = 2 \<and>
   calculateCorrelation round_to_double
     [Num (Fin (1 + 1 / 2 ^ 40)), Num (Fin (1 + 1 / 2 ^ 40))] [Num (Fin 8193), Num (Fin 1)] \<noteq> Fin 0 \<and>
   calculateCorrelation round_to_double
     [Num (Fin (1 + 1 / 2 ^ 40)), Num (Fin (1 + 1 / 2 ^ 40))] [Num (Fin 8193), Num (Fin 1)] \<noteq> NaN"
proof -
  have p: "length (clean_pairs [Num (Fin (1 + 1 / 2 ^ 40)), Num (Fin (1 + 1 / 2 ^ 40))]
     [Num (Fin 8193), Num (Fin 1)]) = 2"
    by (simp add: clean_pairs_def is_clean_def isNaN_def)
  from calculateCorrelation_constant_series_infinite
  have r: "calculateCorrelation round_to_double
     [Num (Fin (1 + 1 / 2 ^ 40)), Num (Fin (1 + 1 / 2 ^ 40))] [Num (Fin 8193), Num (Fin 1)] = NInf"
    by (rule conjunct1)
  show ?thesis unfolding r using p by simp
qed

text \<open>
  In any arithmetic (whatever the rounding \<open>rnd\<close>), calculateCorrelation never returns NaN,
  and it returns 0 when the two lengths differ and when fewer than two pairs are left
  after the pairs with a \<open>null\<close>, \<open>undefined\<close> or NaN element are dropped.
\<close>

theorem calculateCorrelation_guards:
  "calculateCorrelation rnd x y \<noteq> NaN \<and>
   (length x \<noteq> length y \<longrightarrow> calculateCorrelation rnd x y = Fin 0) \<and>
   (length (clean_pairs x y) < 2 \<longrightarrow> calculateCorrelation rnd x y = Fin 0)"
proof (intro conjI impI)
  show "calculateCorrelation rnd x y \<noteq> NaN"
    by (simp add: calculateCorrelation_def Let_def isNaN_def split: sum.split)
  show "calculateCorrelation rnd x y = Fin 0" if "length x \<noteq> length y"
    using that by (simp add: calculateCorrelation_def)
  show "calculateCorrelation rnd x y = Fin 0" if "length (clean_pairs x y) < 2"
    using that by (simp add: calculateCorrelation_def Let_def)
qed

theorem calculateCorrelation_guards_witness:
  "calculateCorrelation round_to_double [Num (Fin 1), Num (Fin 2)] [Num (Fin 1)] = Fin 0 \<and>
   calculateCorrelation round_to_double [Num (Fin 1), Null, Num NaN] [Num (Fin 1), Num (Fin 2), Num (Fin 3)] = Fin 0"
proof -
  have 1: "length [Num (Fin 1), Num (Fin 2)] \<noteq> length [Num (Fin 1)]" by simp
  have 2: "length (clean_pairs [Num (Fin 1), Null, Num NaN] [Num (Fin 1), Num (Fin 2), Num (Fin 3)]) < 2"
    by (simp add: clean_pairs_def is_clean_def isNaN_def)
  note g = calculateCorrelation_guards [of round_to_double]
  show ?thesis
    using g [of "[Num (Fin 1), Num (Fin 2)]" "[Num (Fin 1)]", THEN conjunct2, THEN conjunct1, THEN mp, OF 1]
      g [of "[Num (Fin 1), Null, Num NaN]" "[Num (Fin 1), Num (Fin 2), Num (Fin 3)]",
         THEN conjunct2, THEN conjunct2, THEN mp, OF 2]
    by (rule conjI)
qed

text \<open>Two series in a linear relation: the correlation is 1.\<close>

lemma corr_numerator_linear: "corr_numerator round_to_double [Fin 1, Fin 2, Fin 3] [Fin 2, Fin 4, Fin 6] = Fin 12"
  by code_simp

lemma corr_radicand_linear: "corr_radicand round_to_double [Fin 1, Fin 2, Fin 3] [Fin 2, Fin 4, Fin 6] = Fin 144"
  by code_simp

lemma round_to_double_small: "round_to_double 12 = 12" "round_to_double 1 = 1"
  by code_simp+

lemma calculateCorrelation_linear_example:
  "calculateCorrelation round_to_double [Num (Fin 1), Num (Fin 2), Num (Fin 3)]
     [Num (Fin 2), Num (Fin 4), Num (Fin 6)] = Fin 1"
proof -
  have p: "clean_pairs [Num (Fin 1), Num (Fin 2), Num (Fin 3)] [Num (Fin 2), Num (Fin 4), Num (Fin 6)]
      = [(Num (Fin 1), Num (Fin 2)), (Num (Fin 2), Num (Fin 4)), (Num (Fin 3), Num (Fin 6))]"
    by (simp add: clean_pairs_def is_clean_def isNaN_def)
  have s: "sqrt 144 = 12" by (rule real_sqrt_unique) simp_all
  have m: "math_corr round_to_double [Fin 1, Fin 2, Fin 3] [Fin 2, Fin 4, Fin 6] = Inr (Fin 1)"
    unfolding math_corr_def Let_def corr_numerator_linear corr_radicand_linear
    by (simp add: rounded_def s round_to_double_small)
  show ?thesis
    unfolding calculateCorrelation_def Let_def p using m by (simp add: isNaN_def)
qed

end
